theory Spec2Isabelle
  imports Complex_Main "HOL-Library.Product_Lexorder" "HOL-Library.Multiset"
begin

section \<open>Data model of the arcade hub (git.py)\<close>

text \<open>
  The hub keeps one Python dictionary \<open>data\<close> in memory and mirrors it in the file
  \<open>highscores.json\<close>. Leaderboard entries are dictionaries with a fixed set of keys per
  game; they are modelled as one constructor per shape. Times are Python floats coming
  from differences of \<open>time.time()\<close>; they are finite, and are modelled as rationals
  with the same order (sums and quotients of times are taken exactly).
\<close>

datatype py_error = KeyError | AttributeError | EOFError

text \<open>
  The entry dictionaries the games build, with their keys in order:
  \<open>GuessEntry name attempts time ts\<close>,
  \<open>ReactionEntry name total_time per_round ts\<close>,
  \<open>GibberishEntry name total_time words ts\<close>,
  \<open>NumberMemoryEntry name max_length total_time ts\<close>,
  \<open>SequenceEntry name total_time ts\<close>,
  \<open>WordMemoryEntry name correct total_time ts\<close>,
  \<open>MathEntry name total_time problems ts\<close>.
\<close>

datatype entry =
    GuessEntry string int rat int
  | ReactionEntry string rat "rat list" int
  | GibberishEntry string rat int int
  | NumberMemoryEntry string int rat int
  | SequenceEntry string rat int
  | WordMemoryEntry string int rat int
  | MathEntry string rat int int

record player_rec =
  achievements :: "string list"
  games_played :: int

record save =
  leaderboards :: "string \<rightharpoonup> (string \<rightharpoonup> entry list)"
  players :: "string \<rightharpoonup> player_rec"

definition TOP_N :: nat where
  "TOP_N = 100"

definition GAME_KEYS :: "string list" where
  "GAME_KEYS = [''guess_the_number'', ''reaction_game'', ''gibberish_typing'',
                ''number_memory'', ''sequence_tap'', ''word_memory'', ''math_speed'']"

definition BASE_SAVE :: save where
  "BASE_SAVE = \<lparr> leaderboards = map_of (map (\<lambda>k. (k, Map.empty)) GAME_KEYS),
                  players = Map.empty \<rparr>"

subsection \<open>The backing file\<close>

text \<open>
  \<open>json.load\<close> can fail (\<open>Unparseable\<close>, which also stands for a file that cannot be
  opened), or return any JSON value. \<open>read_save\<close> looks at two levels of that value: the
  top level and the value under \<open>"leaderboards"\<close>; each is either a JSON object or
  something else. Values below these two levels are taken to have the shape the games
  write. \<open>json.dump\<close> followed by \<open>json.load\<close> is taken to reproduce the dictionary
  (all keys written by the hub are strings).
\<close>

datatype lbs_json = LbsObject "string \<rightharpoonup> (string \<rightharpoonup> entry list)" | LbsOther

datatype document =
    Object "lbs_json option" "(string \<rightharpoonup> player_rec) option"
  | NonObject

datatype file_state = Missing | Unparseable | Parsed document

record hub =
  mem :: save
  disk :: file_state
  printed :: "string list"

definition json_dump :: "save \<Rightarrow> document" where
  "json_dump data = Object (Some (LbsObject (leaderboards data))) (Some (players data))"

definition write_save :: "save \<Rightarrow> hub \<Rightarrow> hub" where
  "write_save data h = h\<lparr>disk := Parsed (json_dump data)\<rparr>"

definition setdefault :: "('k \<rightharpoonup> 'v) \<Rightarrow> 'k \<Rightarrow> 'v \<Rightarrow> ('k \<rightharpoonup> 'v)" where
  "setdefault m k v = (case m k of None \<Rightarrow> m(k \<mapsto> v) | Some _ \<Rightarrow> m)"

fun ensure_keys :: "(string \<rightharpoonup> (string \<rightharpoonup> entry list)) \<Rightarrow> string list
    \<Rightarrow> (string \<rightharpoonup> (string \<rightharpoonup> entry list))" where
  "ensure_keys m [] = m"
| "ensure_keys m (key # keys) = ensure_keys (setdefault m key Map.empty) keys"

definition repair :: "document \<Rightarrow> py_error + save" where
  "repair doc =
     (case doc of
        NonObject \<Rightarrow> Inl AttributeError
      | Object lbs pls \<Rightarrow>
          (case (case lbs of None \<Rightarrow> LbsObject Map.empty | Some v \<Rightarrow> v) of
             LbsOther \<Rightarrow> Inl AttributeError
           | LbsObject m \<Rightarrow>
               Inr \<lparr> leaderboards = ensure_keys m GAME_KEYS,
                     players = (case pls of None \<Rightarrow> Map.empty | Some p \<Rightarrow> p) \<rparr>))"

definition read_save :: "file_state \<Rightarrow> py_error + (save \<times> file_state)" where
  "read_save f =
     (case f of
        Missing \<Rightarrow> Inr (BASE_SAVE, Parsed (json_dump BASE_SAVE))
      | Unparseable \<Rightarrow>
          (case repair (json_dump BASE_SAVE) of
             Inl e \<Rightarrow> Inl e | Inr data \<Rightarrow> Inr (data, Unparseable))
      | Parsed doc \<Rightarrow>
          (case repair doc of Inl e \<Rightarrow> Inl e | Inr data \<Rightarrow> Inr (data, Parsed doc)))"

subsection \<open>Players and achievements\<close>

definition ensure_player :: "save \<Rightarrow> string \<Rightarrow> save" where
  "ensure_player data name =
     (if name \<in> dom (players data) then data
      else data\<lparr>players := (players data)(name \<mapsto> \<lparr>achievements = [], games_played = 0\<rparr>)\<rparr>)"

definition award_achievement :: "hub \<Rightarrow> string \<Rightarrow> string \<Rightarrow> string \<Rightarrow> hub" where
  "award_achievement h player ach_key ach_name =
     (let data = ensure_player (mem h) player;
          h1 = h\<lparr>mem := data\<rparr>
      in case players data player of
           None \<Rightarrow> h1
         | Some player_data \<Rightarrow>
             if ach_key \<notin> set (achievements player_data) then
               (let data' = data\<lparr>players := (players data)(player \<mapsto>
                               player_data\<lparr>achievements := achievements player_data @ [ach_key]\<rparr>)\<rparr>
                in write_save data' (h1\<lparr>mem := data', printed := printed h1 @ [ach_name]\<rparr>))
             else h1)"

subsection \<open>Leaderboard engine\<close>

datatype mode_key = MStr string | MInt int

fun str_nat :: "nat \<Rightarrow> string" where
  "str_nat n = (if n < 10 then [char_of (48 + n)]
                else str_nat (n div 10) @ [char_of (48 + n mod 10)])"

declare str_nat.simps [simp del]

fun py_str :: "mode_key \<Rightarrow> string" where
  "py_str (MStr s) = s"
| "py_str (MInt i) = (if i < 0 then CHR ''-'' # str_nat (nat (- i)) else str_nat (nat i))"

text \<open>\<open>list.sort(key=f)\<close>: a stable sort on the keys; a key function that raises
  (\<open>None\<close>: the entry lacks a key the lambda reads) makes the sort raise.\<close>

definition list_sort :: "('a \<Rightarrow> 'k::linorder option) \<Rightarrow> 'a list \<Rightarrow> py_error + 'a list" where
  "list_sort sort_fn xs =
     (if list_all (\<lambda>x. sort_fn x \<noteq> None) xs
      then Inr (sort_key (\<lambda>x. the (sort_fn x)) xs)
      else Inl KeyError)"

definition add_leaderboard_entry ::
  "hub \<Rightarrow> string \<Rightarrow> mode_key \<Rightarrow> entry \<Rightarrow> (entry \<Rightarrow> 'k::linorder option) \<Rightarrow> nat \<Rightarrow> py_error + hub" where
  "add_leaderboard_entry h game_key mk entry sort_fn top_n =
     (let data = mem h;
          lbs = (case leaderboards data game_key of None \<Rightarrow> Map.empty | Some m \<Rightarrow> m);
          lb = (case lbs (py_str mk) of None \<Rightarrow> [] | Some l \<Rightarrow> l)
      in case list_sort sort_fn (lb @ [entry]) of
           Inl e \<Rightarrow> Inl e
         | Inr sorted_lb \<Rightarrow>
             (let lbs' = lbs(py_str mk \<mapsto> take top_n sorted_lb);
                  data' = data\<lparr>leaderboards := (leaderboards data)(game_key \<mapsto> lbs')\<rparr>
              in Inr (write_save data' (h\<lparr>mem := data'\<rparr>))))"

text \<open>\<open>show_leaderboard_generic\<close> reads a leaderboard with
  \<open>data["leaderboards"].get(game_key, {}).get(str(mode_key), [])\<close>.\<close>

definition read_lb :: "save \<Rightarrow> string \<Rightarrow> mode_key \<Rightarrow> entry list" where
  "read_lb data game_key mk =
     (case (case leaderboards data game_key of None \<Rightarrow> Map.empty | Some m \<Rightarrow> m) (py_str mk) of
        None \<Rightarrow> [] | Some l \<Rightarrow> l)"

text \<open>The key lambdas passed as \<open>sort_fn\<close>. Reading a key the entry does not have
  raises \<open>KeyError\<close>, here \<open>None\<close>. Tuples are compared lexicographically.\<close>

fun gtn_sort_fn :: "entry \<Rightarrow> (int \<times> rat) option" where
  "gtn_sort_fn (GuessEntry name attempts time ts) = Some (attempts, time)"
| "gtn_sort_fn _ = None"

fun total_time_sort_fn :: "entry \<Rightarrow> rat option" where
  "total_time_sort_fn (GuessEntry name attempts time ts) = None"
| "total_time_sort_fn (ReactionEntry name total_time per_round ts) = Some total_time"
| "total_time_sort_fn (GibberishEntry name total_time words ts) = Some total_time"
| "total_time_sort_fn (NumberMemoryEntry name max_length total_time ts) = Some total_time"
| "total_time_sort_fn (SequenceEntry name total_time ts) = Some total_time"
| "total_time_sort_fn (WordMemoryEntry name correct total_time ts) = Some total_time"
| "total_time_sort_fn (MathEntry name total_time problems ts) = Some total_time"

fun nm_sort_fn :: "entry \<Rightarrow> (int \<times> rat) option" where
  "nm_sort_fn (NumberMemoryEntry name max_length total_time ts) = Some (- max_length, total_time)"
| "nm_sort_fn _ = None"

fun wm_sort_fn :: "entry \<Rightarrow> (int \<times> rat) option" where
  "wm_sort_fn (WordMemoryEntry name correct total_time ts) = Some (- correct, total_time)"
| "wm_sort_fn _ = None"

subsection \<open>Achievement catalog and session tracker\<close>

text \<open>Strings are byte lists; the dash of three catalog names is written as its UTF-8
  bytes.\<close>

definition em_dash :: string where
  "em_dash = [CHR 0xE2, CHR 0x80, CHR 0x94]"

definition ACH_LIST :: "string \<rightharpoonup> string" where
  "ACH_LIST = map_of
    [(''gtn_first_try'', ''Lucky First Guess (1 attempt)''),
     (''gtn_speed_demon'', ''Speed Demon (<5s)''),
     (''gtn_sniper'', ''Sniper (<3 attempts)''),
     (''gtn_persistent'', ''Persistent (20+ attempts)''),
     (''gtn_iron_streak_5'', ''Iron Streak '' @ em_dash @ '' 5 wins in a row''),
     (''gtn_nightmare'', ''Impossible Odds '' @ em_dash @ '' Beat Nightmare range''),
     (''rx_lightning'', ''Lightning Reflexes (<0.200s single)''),
     (''rx_consistent'', ''Consistent Pro (all <0.500s)''),
     (''rx_marathon'', ''Marathon Reflexes (complete 25 rounds)''),
     (''gt_perfect_accuracy'', ''Perfect Accuracy (100%)''),
     (''gt_typing_machine'', ''Typing Machine (<1s/word avg)''),
     (''gt_flawless_streak3'', ''Flawless Streak '' @ em_dash @ '' 3 perfects in a row''),
     (''nm_brain_of_steel'', ''Brain of Steel (10-digit recall)''),
     (''nm_flash_recall'', ''Flash Recall (5 in a row)''),
     (''st_pattern_pro'', ''Pattern Pro (complete 20-step)''),
     (''wm_word_wizard'', ''Word Wizard (15 words)''),
     (''ms_lightning_calc'', ''Lightning Calculator (20 in <30s)''),
     (''ms_math_genius'', ''Math Genius (perfect on 50)''),
     (''cg_triple_threat'', ''Triple Threat (play all 3 different games in session)''),
     (''cg_grinder_50'', ''Grinder (50 total games)''),
     (''cg_century_100'', ''Century Club (100 total games)''),
     (''cg_top10'', ''Top 10 Glory''),
     (''cg_champion'', ''Champion (#1 on any leaderboard)''),
     (''cg_collector_10'', ''Collector (10 achievements)''),
     (''cg_collector_20'', ''Master Collector (20 achievements)'')]"

record session =
  player :: "string option"
  games_this_session :: "string set"
  consecutive_gtn_wins :: int
  perfect_gibberish_streak :: int
  total_games_played :: int

definition SessionTracker :: "string option \<Rightarrow> session" where
  "SessionTracker p = \<lparr> player = p, games_this_session = {}, consecutive_gtn_wins = 0,
                        perfect_gibberish_streak = 0, total_games_played = 0 \<rparr>"

subsection \<open>Sequencing of calls that may raise\<close>

definition then_do :: "py_error + 'a \<Rightarrow> ('a \<Rightarrow> py_error + 'b) \<Rightarrow> py_error + 'b" where
  "then_do r f = (case r of Inl e \<Rightarrow> Inl e | Inr x \<Rightarrow> f x)"

text \<open>Every award in the games is the call
  \<open>award_achievement(data, player, k, ACH_LIST[k])\<close>, most of them under an \<open>if\<close>.\<close>

definition award_listed :: "hub \<Rightarrow> string \<Rightarrow> string \<Rightarrow> py_error + hub" where
  "award_listed h pl k =
     (case ACH_LIST k of
        None \<Rightarrow> Inl KeyError
      | Some ach_name \<Rightarrow> Inr (award_achievement h pl k ach_name))"

definition award_if :: "bool \<Rightarrow> hub \<Rightarrow> string \<Rightarrow> string \<Rightarrow> py_error + hub" where
  "award_if c h pl k = (if c then award_listed h pl k else Inr h)"

text \<open>\<open>input("Enter your name: ").strip() or "Player"\<close>, from the stripped text.\<close>

definition name_or_default :: "string \<Rightarrow> string" where
  "name_or_default typed_name = (if typed_name = [] then ''Player'' else typed_name)"

section \<open>The seven games\<close>

text \<open>
  Each game is a function of the hub state, the session tracker and what the play reads
  from the outside: the typed name (already stripped), the menu choice, the values drawn
  by \<open>random\<close>, the typed answers, the measured times and the clock value of
  \<open>now_ts()\<close>. Input that ends before the play does is \<open>EOFError\<close>. An exception is
  not caught anywhere in the hub, so the result of a raising play is the error alone.
\<close>

subsection \<open>Guess the Number\<close>

text \<open>A guess that is not an integer (\<open>None\<close>) is answered with "Enter integer." and
  does not count as an attempt.\<close>

fun guess_loop :: "int \<Rightarrow> int \<Rightarrow> int \<Rightarrow> int option list \<Rightarrow> int \<Rightarrow> py_error + int" where
  "guess_loop min_n max_n target [] attempts = Inl EOFError"
| "guess_loop min_n max_n target (None # gs) attempts = guess_loop min_n max_n target gs attempts"
| "guess_loop min_n max_n target (Some g # gs) attempts =
     (if g < min_n \<or> g > max_n then guess_loop min_n max_n target gs (attempts + 1)
      else if g < target then guess_loop min_n max_n target gs (attempts + 1)
      else if g > target then guess_loop min_n max_n target gs (attempts + 1)
      else Inr (attempts + 1))"

definition play_guess_the_number ::
  "hub \<Rightarrow> session \<Rightarrow> string \<Rightarrow> string \<Rightarrow> int \<Rightarrow> int \<Rightarrow> int \<Rightarrow> int option list \<Rightarrow> rat \<Rightarrow> int
     \<Rightarrow> py_error + (hub \<times> session)" where
  "play_guess_the_number h s typed_name mode min_n max_n target guesses elapsed ts =
     (let pl = name_or_default typed_name;
          h0 = h\<lparr>mem := ensure_player (mem h) pl\<rparr>;
          s0 = s\<lparr>player := Some pl\<rparr>
      in then_do (guess_loop min_n max_n target guesses 0) (\<lambda>attempts.
         then_do (award_if (attempts = 1) h0 pl ''gtn_first_try'') (\<lambda>h1.
         then_do (award_if (elapsed < 5) h1 pl ''gtn_speed_demon'') (\<lambda>h2.
         then_do (award_if (attempts < 3) h2 pl ''gtn_sniper'') (\<lambda>h3.
         then_do (award_if (attempts \<ge> 20) h3 pl ''gtn_persistent'') (\<lambda>h4.
         then_do (award_if (mode = ''7'') h4 pl ''gtn_nightmare'') (\<lambda>h5.
         (let s1 = s0\<lparr>games_this_session := insert ''guess'' (games_this_session s0),
                      total_games_played := total_games_played s0 + 1,
                      consecutive_gtn_wins := consecutive_gtn_wins s0 + 1\<rparr>
          in then_do (award_if (consecutive_gtn_wins s1 \<ge> 5) h5 pl ''gtn_iron_streak_5'') (\<lambda>h6.
             then_do (add_leaderboard_entry h6 ''guess_the_number'' (MStr mode)
                        (GuessEntry pl attempts elapsed ts) gtn_sort_fn TOP_N) (\<lambda>h7.
             Inr (h7, s1)))))))))))"

subsection \<open>Reaction Game\<close>

fun reaction_loop :: "nat \<Rightarrow> rat list \<Rightarrow> rat \<times> rat list \<times> bool \<times> bool
    \<Rightarrow> py_error + (rat \<times> rat list \<times> bool \<times> bool)" where
  "reaction_loop 0 dts acc = Inr acc"
| "reaction_loop (Suc r) [] acc = Inl EOFError"
| "reaction_loop (Suc r) (dt # dts) (total_rt, per_round, any_below_200, all_below_500) =
     reaction_loop r dts
       (total_rt + dt, per_round @ [dt],
        (if dt < 2 / 10 then True else any_below_200),
        (if dt \<ge> 5 / 10 then False else all_below_500))"

definition play_reaction ::
  "hub \<Rightarrow> session \<Rightarrow> string \<Rightarrow> int \<Rightarrow> rat list \<Rightarrow> int \<Rightarrow> py_error + (hub \<times> session)" where
  "play_reaction h s typed_name rounds dts ts =
     (let pl = name_or_default typed_name;
          h0 = h\<lparr>mem := ensure_player (mem h) pl\<rparr>;
          s0 = s\<lparr>player := Some pl\<rparr>
      in then_do (reaction_loop (nat rounds) dts (0, [], False, True))
           (\<lambda>(total_rt, per_round, any_below_200, all_below_500).
         then_do (award_if any_below_200 h0 pl ''rx_lightning'') (\<lambda>h1.
         then_do (award_if all_below_500 h1 pl ''rx_consistent'') (\<lambda>h2.
         then_do (award_if (rounds = 25) h2 pl ''rx_marathon'') (\<lambda>h3.
         (let s1 = s0\<lparr>games_this_session := insert ''reaction'' (games_this_session s0),
                      total_games_played := total_games_played s0 + 1\<rparr>
          in then_do (add_leaderboard_entry h3 ''reaction_game'' (MStr (py_str (MInt rounds)))
                        (ReactionEntry pl total_rt per_round ts) total_time_sort_fn TOP_N) (\<lambda>h4.
             Inr (h4, s1))))))))"

subsection \<open>Gibberish Typing\<close>

definition play_gibberish ::
  "hub \<Rightarrow> session \<Rightarrow> string \<Rightarrow> int \<Rightarrow> string list \<Rightarrow> string list \<Rightarrow> rat \<Rightarrow> int
     \<Rightarrow> py_error + (hub \<times> session)" where
  "play_gibberish h s typed_name words targets typed_tokens elapsed ts =
     (let pl = name_or_default typed_name;
          h0 = h\<lparr>mem := ensure_player (mem h) pl\<rparr>;
          s0 = s\<lparr>player := Some pl\<rparr>;
          perfect = (typed_tokens = targets);
          s1 = s0\<lparr>games_this_session := insert ''gibberish'' (games_this_session s0),
                  total_games_played := total_games_played s0 + 1\<rparr>
      in if perfect then
           then_do (award_listed h0 pl ''gt_perfect_accuracy'') (\<lambda>h1.
           (let avg = elapsed / of_int (max 1 words)
            in then_do (award_if (avg < 1) h1 pl ''gt_typing_machine'') (\<lambda>h2.
               (case players (mem h2) pl of
                  None \<Rightarrow> Inl KeyError
                | Some p \<Rightarrow>
                    (let s2 = s1\<lparr>perfect_gibberish_streak := perfect_gibberish_streak s1 + 1\<rparr>
                     in then_do (award_if (perfect_gibberish_streak s2 \<ge> 3) h2 pl
                                   ''gt_flawless_streak3'') (\<lambda>h3.
                        then_do (add_leaderboard_entry h3 ''gibberish_typing''
                                   (MStr (py_str (MInt words)))
                                   (GibberishEntry pl elapsed words ts) total_time_sort_fn TOP_N) (\<lambda>h4.
                        Inr (h4, s2))))))))
         else Inr (h0, s1\<lparr>perfect_gibberish_streak := 0\<rparr>))"

subsection \<open>Number Memory\<close>

text \<open>One round is the number shown, the answer typed and the time it took. The play
  ends with the first wrong answer.\<close>

fun number_memory_loop ::
  "hub \<Rightarrow> session \<Rightarrow> string \<Rightarrow> string \<Rightarrow> int \<Rightarrow> rat \<Rightarrow> int \<Rightarrow> (string \<times> string \<times> rat) list \<Rightarrow> int
     \<Rightarrow> py_error + (hub \<times> session)" where
  "number_memory_loop h s pl mode_choice max_len total_time round_no [] ts = Inl EOFError"
| "number_memory_loop h s pl mode_choice max_len total_time round_no ((n, ans, dt) # rest) ts =
     (if ans = n then
        then_do (award_if (max_len + 1 - 1 \<ge> 10) h pl ''nm_brain_of_steel'') (\<lambda>h1.
        then_do (award_if (round_no + 1 \<ge> 5) h1 pl ''nm_flash_recall'') (\<lambda>h2.
        number_memory_loop h2 (s\<lparr>total_games_played := total_games_played s + 1\<rparr>)
          pl mode_choice (max_len + 1) (total_time + dt) (round_no + 1) rest ts))
      else
        then_do (add_leaderboard_entry h ''number_memory'' (MStr mode_choice)
                   (NumberMemoryEntry pl (max_len - 1) (total_time + dt) ts) nm_sort_fn TOP_N) (\<lambda>h1.
        Inr (h1, s)))"

definition play_number_memory ::
  "hub \<Rightarrow> session \<Rightarrow> string \<Rightarrow> string \<Rightarrow> (string \<times> string \<times> rat) list \<Rightarrow> int
     \<Rightarrow> py_error + (hub \<times> session)" where
  "play_number_memory h s typed_name mode_choice rounds_io ts =
     (let pl = name_or_default typed_name;
          h0 = h\<lparr>mem := ensure_player (mem h) pl\<rparr>;
          s0 = s\<lparr>player := Some pl\<rparr>;
          start_len = (if mode_choice = ''easy_2'' then 2
                       else if mode_choice = ''normal_4'' then 4 else 6)
      in number_memory_loop h0 s0 pl mode_choice start_len 0 0 rounds_io ts)"

subsection \<open>Sequence Tap\<close>

definition play_sequence_tap ::
  "hub \<Rightarrow> session \<Rightarrow> string \<Rightarrow> int \<Rightarrow> string list \<Rightarrow> string \<Rightarrow> rat \<Rightarrow> int
     \<Rightarrow> py_error + (hub \<times> session)" where
  "play_sequence_tap h s typed_name steps seq typed elapsed ts =
     (let pl = name_or_default typed_name;
          h0 = h\<lparr>mem := ensure_player (mem h) pl\<rparr>;
          s0 = s\<lparr>player := Some pl\<rparr>;
          expected = concat seq;
          correct = (typed = expected);
          s1 = s0\<lparr>total_games_played := total_games_played s0 + 1\<rparr>
      in if correct then
           then_do (award_if (steps = 20) h0 pl ''st_pattern_pro'') (\<lambda>h1.
           then_do (add_leaderboard_entry h1 ''sequence_tap'' (MStr (py_str (MInt steps)))
                      (SequenceEntry pl elapsed ts) total_time_sort_fn TOP_N) (\<lambda>h2.
           Inr (h2, s1)))
         else Inr (h0, s1))"

subsection \<open>Word Memory Chain\<close>

definition play_word_memory ::
  "hub \<Rightarrow> session \<Rightarrow> string \<Rightarrow> int \<Rightarrow> string list \<Rightarrow> string list \<Rightarrow> rat \<Rightarrow> int
     \<Rightarrow> py_error + (hub \<times> session)" where
  "play_word_memory h s typed_name words_count words typed elapsed ts =
     (let pl = name_or_default typed_name;
          h0 = h\<lparr>mem := ensure_player (mem h) pl\<rparr>;
          s0 = s\<lparr>player := Some pl\<rparr>;
          correct_count = int (length (filter (\<lambda>(a, b). a = b) (zip words typed)));
          s1 = s0\<lparr>total_games_played := total_games_played s0 + 1\<rparr>
      in then_do (award_if (correct_count = words_count \<and> words_count \<ge> 15) h0 pl
                    ''wm_word_wizard'') (\<lambda>h1.
         then_do (add_leaderboard_entry h1 ''word_memory'' (MStr (py_str (MInt words_count)))
                    (WordMemoryEntry pl correct_count elapsed ts) wm_sort_fn TOP_N) (\<lambda>h2.
         Inr (h2, s1))))"

subsection \<open>Math Speed Run\<close>

text \<open>A problem is answered until the answer is right; a response that is not an
  integer is \<open>None\<close>. The loop returns the input that is left.\<close>

fun answer_loop :: "int \<Rightarrow> int option list \<Rightarrow> py_error + int option list" where
  "answer_loop ans [] = Inl EOFError"
| "answer_loop ans (None # rs) = answer_loop ans rs"
| "answer_loop ans (Some resp # rs) = (if resp = ans then Inr rs else answer_loop ans rs)"

fun quiz_loop :: "(int \<times> char \<times> int) list \<Rightarrow> int option list \<Rightarrow> py_error + int option list" where
  "quiz_loop [] rs = Inr rs"
| "quiz_loop ((a, op, b) # qs) rs =
     then_do (answer_loop (if op = CHR ''+'' then a + b
                           else if op = CHR ''-'' then a - b else a * b) rs)
       (\<lambda>rs'. quiz_loop qs rs')"

definition play_math_speed ::
  "hub \<Rightarrow> session \<Rightarrow> string \<Rightarrow> int \<Rightarrow> (nat \<Rightarrow> int \<times> char \<times> int) \<Rightarrow> int option list \<Rightarrow> rat \<Rightarrow> int
     \<Rightarrow> py_error + (hub \<times> session)" where
  "play_math_speed h s typed_name problems drawn responses elapsed ts =
     (let pl = name_or_default typed_name;
          h0 = h\<lparr>mem := ensure_player (mem h) pl\<rparr>;
          s0 = s\<lparr>player := Some pl\<rparr>
      in then_do (quiz_loop (map drawn [0..<nat problems]) responses) (\<lambda>_.
         then_do (award_if (problems \<ge> 20 \<and> elapsed < 30) h0 pl ''ms_lightning_calc'') (\<lambda>h1.
         then_do (award_if (problems = 50) h1 pl ''ms_math_genius'') (\<lambda>h2.
         (let s1 = s0\<lparr>total_games_played := total_games_played s0 + 1\<rparr>
          in then_do (add_leaderboard_entry h2 ''math_speed'' (MStr (py_str (MInt problems)))
                        (MathEntry pl elapsed problems ts) total_time_sort_fn TOP_N) (\<lambda>h3.
             Inr (h3, s1)))))))"

subsection \<open>The main menu\<close>

datatype play =
    Guess string string int int int "int option list" rat int
  | Reaction string int "rat list" int
  | Gibberish string int "string list" "string list" rat int
  | NumberMemory string string "(string \<times> string \<times> rat) list" int
  | SequenceTap string int "string list" string rat int
  | WordMemory string int "string list" "string list" rat int
  | MathSpeed string int "nat \<Rightarrow> int \<times> char \<times> int" "int option list" rat int

fun run_play :: "hub \<times> session \<Rightarrow> play \<Rightarrow> py_error + (hub \<times> session)" where
  "run_play (h, s) (Guess nm mode min_n max_n target guesses elapsed ts) =
     play_guess_the_number h s nm mode min_n max_n target guesses elapsed ts"
| "run_play (h, s) (Reaction nm rounds dts ts) = play_reaction h s nm rounds dts ts"
| "run_play (h, s) (Gibberish nm words targets typed_tokens elapsed ts) =
     play_gibberish h s nm words targets typed_tokens elapsed ts"
| "run_play (h, s) (NumberMemory nm mode_choice rounds_io ts) =
     play_number_memory h s nm mode_choice rounds_io ts"
| "run_play (h, s) (SequenceTap nm steps seq typed elapsed ts) =
     play_sequence_tap h s nm steps seq typed elapsed ts"
| "run_play (h, s) (WordMemory nm words_count words typed elapsed ts) =
     play_word_memory h s nm words_count words typed elapsed ts"
| "run_play (h, s) (MathSpeed nm problems drawn responses elapsed ts) =
     play_math_speed h s nm problems drawn responses elapsed ts"

fun main_menu :: "hub \<times> session \<Rightarrow> play list \<Rightarrow> py_error + (hub \<times> session)" where
  "main_menu st [] = Inr st"
| "main_menu st (p # ps) = then_do (run_play st p) (\<lambda>st'. main_menu st' ps)"

text \<open>A run of inserts into one leaderboard with one key function.\<close>

fun insert_seq ::
  "hub \<Rightarrow> string \<Rightarrow> mode_key \<Rightarrow> (entry \<Rightarrow> 'k::linorder option) \<Rightarrow> nat \<Rightarrow> entry list
     \<Rightarrow> py_error + hub" where
  "insert_seq h game_key mk sort_fn top_n [] = Inr h"
| "insert_seq h game_key mk sort_fn top_n (e # es) =
     (case add_leaderboard_entry h game_key mk e sort_fn top_n of
        Inl err \<Rightarrow> Inl err
      | Inr h' \<Rightarrow> insert_seq h' game_key mk sort_fn top_n es)"

definition has_keys :: "('a \<Rightarrow> 'k option) \<Rightarrow> 'a list \<Rightarrow> bool" where
  "has_keys sort_fn xs = list_all (\<lambda>x. sort_fn x \<noteq> None) xs"

text \<open>The player's achievement list as the achievements viewer reads it
  (\<open>p.get("achievements", [])\<close>, nothing for an unknown player).\<close>

definition achievements_of :: "save \<Rightarrow> string \<Rightarrow> string list" where
  "achievements_of data nm = (case players data nm of None \<Rightarrow> [] | Some p \<Rightarrow> achievements p)"

definition games_played_of :: "save \<Rightarrow> string \<Rightarrow> int" where
  "games_played_of data nm = (case players data nm of None \<Rightarrow> 0 | Some p \<Rightarrow> games_played p)"

definition hub0 :: hub where
  "hub0 = \<lparr> mem = BASE_SAVE, disk = Parsed (json_dump BASE_SAVE), printed = [] \<rparr>"

definition scenario1 :: "entry list" where
  "scenario1 = [GuessEntry ''A'' 3 10 0, GuessEntry ''B'' 1 8 1, GuessEntry ''C'' 3 5 2]"

text \<open>The mode map of a game as the leaderboard browser reads it
  (\<open>data["leaderboards"].get(game_key, {})\<close>).\<close>

definition modes_of :: "save \<Rightarrow> string \<Rightarrow> (string \<rightharpoonup> entry list)" where
  "modes_of data game_key = (case leaderboards data game_key of None \<Rightarrow> Map.empty | Some m \<Rightarrow> m)"

text \<open>The claim's "ranks worst" for Number Memory: a smaller longest length, or the same
  length with a larger total time.\<close>

fun nm_ranks_below :: "entry \<Rightarrow> entry \<Rightarrow> bool" where
  "nm_ranks_below (NumberMemoryEntry n1 max_length1 total_time1 ts1)
                  (NumberMemoryEntry n2 max_length2 total_time2 ts2) =
     (max_length1 < max_length2 \<or> (max_length1 = max_length2 \<and> total_time1 > total_time2))"
| "nm_ranks_below _ _ = False"

definition full_board :: "entry list" where
  "full_board = map (\<lambda>i. NumberMemoryEntry ''p'' 12 (of_nat i) 0) [0..<100]"

definition full_hub :: hub where
  "full_hub = hub0\<lparr>mem := (mem hub0)\<lparr>leaderboards :=
                 (leaderboards (mem hub0))(''number_memory'' \<mapsto> [''hard_6'' \<mapsto> full_board])\<rparr>\<rparr>"

definition tie_a :: entry where
  "tie_a = ReactionEntry ''A'' 1 [1 / 2, 1 / 2] 0"

definition tie_b :: entry where
  "tie_b = ReactionEntry ''B'' 1 [1 / 4, 3 / 4] 0"

text \<open>The sequence a run leaves at a leaderboard, or the error it raised.\<close>

definition board_after :: "string \<Rightarrow> mode_key \<Rightarrow> py_error + hub \<Rightarrow> py_error + entry list" where
  "board_after game_key mk r = (case r of Inl e \<Rightarrow> Inl e | Inr h \<Rightarrow> Inr (read_lb (mem h) game_key mk))"

text \<open>The keys the games pass to \<open>award_achievement\<close>.\<close>

definition awarded_keys :: "string list" where
  "awarded_keys =
     [''gtn_first_try'', ''gtn_speed_demon'', ''gtn_sniper'', ''gtn_persistent'',
      ''gtn_nightmare'', ''gtn_iron_streak_5'', ''rx_lightning'', ''rx_consistent'',
      ''rx_marathon'', ''gt_perfect_accuracy'', ''gt_typing_machine'', ''gt_flawless_streak3'',
      ''nm_brain_of_steel'', ''nm_flash_recall'', ''st_pattern_pro'', ''wm_word_wizard'',
      ''ms_lightning_calc'', ''ms_math_genius'']"

text \<open>What a successful \<open>add_leaderboard_entry\<close> leaves: one sequence replaced, the
  whole document written.\<close>

definition store_board :: "hub \<Rightarrow> string \<Rightarrow> string \<Rightarrow> entry list \<Rightarrow> hub" where
  "store_board h game_key m l =
     (let data' = (mem h)\<lparr>leaderboards := (leaderboards (mem h))(game_key \<mapsto>
                     (modes_of (mem h) game_key)(m \<mapsto> l))\<rparr>
      in write_save data' (h\<lparr>mem := data'\<rparr>))"

text \<open>The hub states a play can reach: every play is a sequence of \<open>ensure_player\<close>,
  awards of the keys above and leaderboard inserts.\<close>

inductive hub_step :: "hub \<Rightarrow> hub \<Rightarrow> bool" where
  same: "hub_step h h"
| ensure: "hub_step h h' \<Longrightarrow> hub_step h (h'\<lparr>mem := ensure_player (mem h') pl\<rparr>)"
| award: "hub_step h h' \<Longrightarrow> k \<in> set awarded_keys \<Longrightarrow> hub_step h (award_achievement h' pl k nm)"
| board: "hub_step h h' \<Longrightarrow> hub_step h (store_board h' game_key m l)"

text \<open>A result of a play, read as a claim about the hub it returns (nothing is claimed
  of a play that raised).\<close>

definition res_step :: "hub \<Rightarrow> py_error + (hub \<times> session) \<Rightarrow> bool" where
  "res_step h0 r = (case r of Inl e \<Rightarrow> True | Inr (h', s') \<Rightarrow> hub_step h0 h')"

definition bad_tap :: play where
  "bad_tap = SequenceTap ''Alice'' 5 [''A'', ''B'', ''C'', ''D'', ''E''] ''ABCDX'' 3 0"

definition alice0 :: hub where
  "alice0 = hub0\<lparr>mem := ensure_player (mem hub0) ''Alice''\<rparr>"

definition alice_hub :: hub where
  "alice_hub = award_achievement hub0 ''Alice'' ''gtn_sniper'' ''Sniper (<3 attempts)''"

text \<open>The session tracker a play leaves, or the error it raised.\<close>

definition session_after :: "py_error + (hub \<times> session) \<Rightarrow> py_error + session" where
  "session_after r = (case r of Inl e \<Rightarrow> Inl e | Inr (h, s) \<Rightarrow> Inr s)"

definition good_tap_seq :: "string list" where
  "good_tap_seq = [''A'', ''B'', ''C'', ''D'', ''E'']"

text \<open>Where a stable sort puts an element appended to a sorted list: after every entry
  whose key is not larger.\<close>

fun insert_last :: "('a \<Rightarrow> 'k::linorder) \<Rightarrow> 'a \<Rightarrow> 'a list \<Rightarrow> 'a list" where
  "insert_last f e [] = [e]"
| "insert_last f e (y # ys) = (if f y \<le> f e then y # insert_last f e ys else e # y # ys)"

definition easy_quiz :: "nat \<Rightarrow> int \<times> char \<times> int" where
  "easy_quiz i = (2, CHR ''+'', 3)"

section \<open>Properties\<close>

subsection \<open>Leaderboard engine: bound and order\<close>

lemma list_sort_ok:
  "has_keys f xs \<Longrightarrow> list_sort f xs = Inr (sort_key (\<lambda>x. the (f x)) xs)"
  by (simp add: list_sort_def has_keys_def)

lemma has_keys_append [simp]: "has_keys f (xs @ ys) = (has_keys f xs \<and> has_keys f ys)"
  by (simp add: has_keys_def)

lemma has_keys_single [simp]: "has_keys f [x] = (f x \<noteq> None)"
  by (simp add: has_keys_def)

lemma has_keys_Nil [simp]: "has_keys f []"
  by (simp add: has_keys_def)

lemma has_keys_set: "has_keys f xs = (\<forall>x\<in>set xs. f x \<noteq> None)"
  by (simp add: has_keys_def list_all_iff)

lemma has_keys_take: "has_keys f xs \<Longrightarrow> has_keys f (take n xs)"
  by (auto simp: has_keys_set dest: in_set_takeD)

lemma has_keys_sort [simp]: "has_keys f (sort_key g xs) = has_keys f xs"
  by (simp add: has_keys_set)

lemma add_leaderboard_entry_ok:
  assumes "has_keys f (read_lb (mem h) g mk)" and "f e \<noteq> None"
  shows "\<exists>h'. add_leaderboard_entry h g mk e f n = Inr h' \<and>
           read_lb (mem h') g mk = take n (sort_key (\<lambda>x. the (f x)) (read_lb (mem h) g mk @ [e])) \<and>
           disk h' = Parsed (json_dump (mem h')) \<and> printed h' = printed h \<and>
           players (mem h') = players (mem h)"
  using assms
  by (simp add: add_leaderboard_entry_def read_lb_def Let_def list_sort_ok write_save_def)

lemma insert_seq_inv:
  assumes "has_keys f es" and "has_keys f (read_lb (mem h) g mk)"
    and "sorted (map (\<lambda>x. the (f x)) (read_lb (mem h) g mk))"
    and "length (read_lb (mem h) g mk) \<le> n"
  shows "\<exists>h'. insert_seq h g mk f n es = Inr h' \<and>
           length (read_lb (mem h') g mk) = min n (length (read_lb (mem h) g mk) + length es) \<and>
           sorted (map (\<lambda>x. the (f x)) (read_lb (mem h') g mk)) \<and>
           (es \<noteq> [] \<longrightarrow> disk h' = Parsed (json_dump (mem h')))"
  using assms
proof (induction es arbitrary: h)
  case Nil
  then show ?case by simp
next
  case (Cons e es)
  from Cons.prems have ke: "f e \<noteq> None" and kes: "has_keys f es"
    by (simp_all add: has_keys_def)
  from add_leaderboard_entry_ok [OF Cons.prems(2) ke, of n]
  obtain h1 where h1: "add_leaderboard_entry h g mk e f n = Inr h1"
    and lb1: "read_lb (mem h1) g mk = take n (sort_key (\<lambda>x. the (f x)) (read_lb (mem h) g mk @ [e]))"
    and d1: "disk h1 = Parsed (json_dump (mem h1))"
    by blast
  have k1: "has_keys f (read_lb (mem h1) g mk)"
    unfolding lb1 using Cons.prems(2) ke by (intro has_keys_take) simp
  have s1: "sorted (map (\<lambda>x. the (f x)) (read_lb (mem h1) g mk))"
    unfolding lb1 take_map [symmetric] by (rule sorted_wrt_take) (rule sorted_sort_key)
  have l1: "length (read_lb (mem h1) g mk) \<le> n"
    unfolding lb1 by simp
  from Cons.IH [OF kes k1 s1 l1]
  obtain h' where h': "insert_seq h1 g mk f n es = Inr h'"
    and len: "length (read_lb (mem h') g mk) = min n (length (read_lb (mem h1) g mk) + length es)"
    and srt: "sorted (map (\<lambda>x. the (f x)) (read_lb (mem h') g mk))"
    and dsk: "es \<noteq> [] \<longrightarrow> disk h' = Parsed (json_dump (mem h'))"
    by blast
  have "es = [] \<Longrightarrow> h' = h1" using h' by simp
  with d1 dsk have "disk h' = Parsed (json_dump (mem h'))" by (cases es) auto
  moreover have "length (read_lb (mem h') g mk) = min n (length (read_lb (mem h) g mk) + length (e # es))"
    unfolding len lb1 using Cons.prems(4) by simp
  ultimately show ?case using h1 h' srt by simp
qed

text \<open>
  C1. Starting from an empty (or absent) leaderboard at one game key and mode key, a run
  of inserts with that mode's key function, each entry having the keys the function
  reads, succeeds; after the first \<open>k\<close> inserts the stored sequence has length
  \<open>min k 100\<close>, is sorted by the key, and is the one written to the file.
\<close>

theorem C1_leaderboard_bound:
  assumes "read_lb (mem h) game_key mk = []" and "has_keys sort_fn es" and "k \<le> length es"
  shows "\<exists>h'. insert_seq h game_key mk sort_fn TOP_N (take k es) = Inr h' \<and>
           length (read_lb (mem h') game_key mk) = min k 100 \<and>
           sorted (map (\<lambda>e. the (sort_fn e)) (read_lb (mem h') game_key mk)) \<and>
           (0 < k \<longrightarrow> disk h' = Parsed (json_dump (mem h')))"
proof -
  have "has_keys sort_fn (take k es)" using assms(2) by (rule has_keys_take)
  from insert_seq_inv [OF this, of h game_key mk TOP_N] assms(1,3)
  show ?thesis by (auto simp: TOP_N_def min.commute)
qed

lemma read_lb_hub0 [simp]: "read_lb (mem hub0) g mk = []"
  by (simp add: hub0_def BASE_SAVE_def GAME_KEYS_def read_lb_def)

theorem C1_leaderboard_bound_witness:
  "read_lb (mem hub0) ''guess_the_number'' (MStr ''3'') = [] \<and> has_keys gtn_sort_fn scenario1 \<and>
   3 \<le> length scenario1 \<and>
   (\<exists>h'. insert_seq hub0 ''guess_the_number'' (MStr ''3'') gtn_sort_fn TOP_N (take 3 scenario1) = Inr h' \<and>
      length (read_lb (mem h') ''guess_the_number'' (MStr ''3'')) = min 3 100 \<and>
      sorted (map (\<lambda>e. the (gtn_sort_fn e)) (read_lb (mem h') ''guess_the_number'' (MStr ''3''))) \<and>
      (0 < (3::nat) \<longrightarrow> disk h' = Parsed (json_dump (mem h'))))"
  using C1_leaderboard_bound [of hub0 "''guess_the_number''" "MStr ''3''" gtn_sort_fn scenario1 3]
  by (simp add: scenario1_def has_keys_def)

subsection \<open>Frame of an insert\<close>

lemma read_lb_modes_of:
  "read_lb data g mk = (case modes_of data g (py_str mk) of None \<Rightarrow> [] | Some l \<Rightarrow> l)"
  by (simp add: read_lb_def modes_of_def)

text \<open>
  C10. A successful insert at a game key and mode key leaves the mode map of every other
  game, the sequence of every other mode of the same game and the players map as they
  were; the sequence is stored under the string form of the mode key, so that a mode key
  and its string form address the same leaderboard.
\<close>

theorem C10_insert_frame:
  assumes "add_leaderboard_entry h game_key mk e sort_fn top_n = Inr h'"
  shows "(\<forall>g. g \<noteq> game_key \<longrightarrow> leaderboards (mem h') g = leaderboards (mem h) g) \<and>
         (\<forall>m. m \<noteq> py_str mk \<longrightarrow> modes_of (mem h') game_key m = modes_of (mem h) game_key m) \<and>
         players (mem h') = players (mem h) \<and>
         modes_of (mem h') game_key (py_str mk) =
           Some (take top_n (sort_key (\<lambda>x. the (sort_fn x)) (read_lb (mem h) game_key mk @ [e]))) \<and>
         add_leaderboard_entry h game_key (MStr (py_str mk)) e sort_fn top_n = Inr h'"
proof -
  have eq: "add_leaderboard_entry h game_key (MStr (py_str mk)) e sort_fn top_n =
            add_leaderboard_entry h game_key mk e sort_fn top_n"
    by (simp add: add_leaderboard_entry_def Let_def cong: sum.case_cong)
  have ok: "list_sort sort_fn (read_lb (mem h) game_key mk @ [e]) =
            Inr (sort_key (\<lambda>x. the (sort_fn x)) (read_lb (mem h) game_key mk @ [e]))"
    using assms
    by (auto simp: add_leaderboard_entry_def read_lb_def Let_def list_sort_def
             split: if_splits sum.splits)
  from assms ok have h': "h' = write_save
      ((mem h)\<lparr>leaderboards := (leaderboards (mem h))(game_key \<mapsto>
         (modes_of (mem h) game_key)(py_str mk \<mapsto>
            take top_n (sort_key (\<lambda>x. the (sort_fn x)) (read_lb (mem h) game_key mk @ [e]))))\<rparr>)
      (h\<lparr>mem := (mem h)\<lparr>leaderboards := (leaderboards (mem h))(game_key \<mapsto>
         (modes_of (mem h) game_key)(py_str mk \<mapsto>
            take top_n (sort_key (\<lambda>x. the (sort_fn x)) (read_lb (mem h) game_key mk @ [e]))))\<rparr>\<rparr>)"
    by (simp add: add_leaderboard_entry_def read_lb_def modes_of_def Let_def)
  show ?thesis
    unfolding eq using assms by (simp add: h' write_save_def modes_of_def)
qed

lemma py_str_20: "py_str (MInt 20) = ''20''"
  by code_simp

theorem C10_insert_frame_witness:
  "\<exists>h'. add_leaderboard_entry hub0 ''sequence_tap'' (MInt 20) (SequenceEntry ''A'' 7 0)
            total_time_sort_fn TOP_N = Inr h' \<and>
     (\<forall>g. g \<noteq> ''sequence_tap'' \<longrightarrow> leaderboards (mem h') g = leaderboards (mem hub0) g) \<and>
     (\<forall>m. m \<noteq> ''20'' \<longrightarrow> modes_of (mem h') ''sequence_tap'' m = modes_of (mem hub0) ''sequence_tap'' m) \<and>
     players (mem h') = players (mem hub0) \<and>
     modes_of (mem h') ''sequence_tap'' ''20'' = Some [SequenceEntry ''A'' 7 0] \<and>
     add_leaderboard_entry hub0 ''sequence_tap'' (MStr ''20'') (SequenceEntry ''A'' 7 0)
            total_time_sort_fn TOP_N = Inr h'"
proof -
  obtain h' where h': "add_leaderboard_entry hub0 ''sequence_tap'' (MInt 20) (SequenceEntry ''A'' 7 0)
            total_time_sort_fn TOP_N = Inr h'"
    using add_leaderboard_entry_ok [of total_time_sort_fn hub0 "''sequence_tap''" "MInt 20"
                                       "SequenceEntry ''A'' 7 0" TOP_N]
    by auto
  from C10_insert_frame [OF h'] h' show ?thesis
    by (simp add: py_str_20 TOP_N_def del: py_str.simps)
qed

subsection \<open>Dropping the lowest-ranked entry\<close>

lemma nm_ranks_below_key:
  "nm_ranks_below e x \<Longrightarrow> nm_sort_fn x \<noteq> None \<and> nm_sort_fn e \<noteq> None \<and>
     the (nm_sort_fn x) < the (nm_sort_fn e)"
  by (cases "(e, x)" rule: nm_ranks_below.cases) auto

lemma sort_key_worst_last:
  assumes "sorted (map f xs)" and "\<forall>x\<in>set xs. f x \<le> f e"
  shows "sort_key f (xs @ [e]) = xs @ [e]"
  using assms by (intro sort_key_id_if_sorted) (auto simp: sorted_append)

text \<open>
  C8. On a full Number Memory \<open>hard_6\<close> leaderboard (100 entries, in rank order),
  inserting an entry that ranks below every stored one succeeds; the new entry is the last
  of the 101 after sorting, it is the one dropped, and the 100 stored entries stay in
  place.
\<close>

theorem C8_full_board_drops_lowest:
  assumes "read_lb (mem h) ''number_memory'' (MStr ''hard_6'') = lb"
    and "length lb = 100"
    and "sorted (map (\<lambda>x. the (nm_sort_fn x)) lb)"
    and "\<forall>x\<in>set lb. nm_ranks_below e x"
  shows "\<exists>h'. add_leaderboard_entry h ''number_memory'' (MStr ''hard_6'') e nm_sort_fn TOP_N = Inr h' \<and>
           list_sort nm_sort_fn (lb @ [e]) = Inr (lb @ [e]) \<and>
           read_lb (mem h') ''number_memory'' (MStr ''hard_6'') = lb \<and>
           length (read_lb (mem h') ''number_memory'' (MStr ''hard_6'')) = 100"
proof -
  from assms(2) obtain x0 where "x0 \<in> set lb" by (cases lb) auto
  with assms(4) have "nm_ranks_below e x0" by blast
  then have ke: "nm_sort_fn e \<noteq> None" by (blast dest: nm_ranks_below_key)
  have kl: "has_keys nm_sort_fn lb"
    unfolding has_keys_set using assms(4) nm_ranks_below_key by blast
  have le: "\<forall>x\<in>set lb. the (nm_sort_fn x) \<le> the (nm_sort_fn e)"
    using assms(4) nm_ranks_below_key by (metis less_imp_le)
  have srt: "sort_key (\<lambda>x. the (nm_sort_fn x)) (lb @ [e]) = lb @ [e]"
    using assms(3) le by (rule sort_key_worst_last)
  from kl ke have "list_sort nm_sort_fn (lb @ [e]) = Inr (lb @ [e])"
    by (simp add: list_sort_ok srt)
  moreover from add_leaderboard_entry_ok [of nm_sort_fn h "''number_memory''" "MStr ''hard_6''" e TOP_N]
    kl ke assms(1,2)
  have "\<exists>h'. add_leaderboard_entry h ''number_memory'' (MStr ''hard_6'') e nm_sort_fn TOP_N = Inr h' \<and>
           read_lb (mem h') ''number_memory'' (MStr ''hard_6'') = lb"
    by (auto simp: srt TOP_N_def)
  ultimately show ?thesis using assms(2) by auto
qed

lemma full_board_length: "length full_board = 100"
  by (simp add: full_board_def)

lemma full_board_sorted: "sorted (map (\<lambda>x. the (nm_sort_fn x)) full_board)"
  by (simp add: full_board_def comp_def sorted_map sorted_wrt_map)

lemma full_board_worst:
  "\<forall>x\<in>set full_board. nm_ranks_below (NumberMemoryEntry ''q'' 12 100 5) x"
  by (auto simp: full_board_def)

lemma read_lb_full_hub: "read_lb (mem full_hub) ''number_memory'' (MStr ''hard_6'') = full_board"
  by (simp add: full_hub_def read_lb_def)

theorem C8_full_board_drops_lowest_witness:
  "\<exists>h'. add_leaderboard_entry full_hub ''number_memory'' (MStr ''hard_6'')
           (NumberMemoryEntry ''q'' 12 100 5) nm_sort_fn TOP_N = Inr h' \<and>
         list_sort nm_sort_fn (full_board @ [NumberMemoryEntry ''q'' 12 100 5]) =
           Inr (full_board @ [NumberMemoryEntry ''q'' 12 100 5]) \<and>
         read_lb (mem h') ''number_memory'' (MStr ''hard_6'') = full_board \<and>
         length (read_lb (mem h') ''number_memory'' (MStr ''hard_6'')) = 100"
  using C8_full_board_drops_lowest [OF read_lb_full_hub full_board_length full_board_sorted
          full_board_worst]
  by simp

subsection \<open>Comparators\<close>

lemma list_sort_props:
  assumes "list_sort f xs = Inr ys"
  shows "sorted (map (\<lambda>x. the (f x)) ys)" and "mset ys = mset xs"
    and "filter (\<lambda>x. the (f x) = k) ys = filter (\<lambda>x. the (f x) = k) xs"
proof -
  from assms have ys: "ys = sort_key (\<lambda>x. the (f x)) xs"
    by (simp add: list_sort_def split: if_splits)
  show "sorted (map (\<lambda>x. the (f x)) ys)" unfolding ys by (rule sorted_sort_key)
  show "mset ys = mset xs" unfolding ys by simp
  show "filter (\<lambda>x. the (f x) = k) ys = filter (\<lambda>x. the (f x) = k) xs"
    unfolding ys by (rule sort_key_stable)
qed

lemma list_sort_perm:
  assumes "mset xs' = mset xs" and "inj_on (\<lambda>x. the (f x)) (set xs)"
  shows "list_sort f xs' = list_sort f xs"
proof -
  from assms(1) have st: "set xs' = set xs" by (rule mset_eq_setD)
  then have hk: "has_keys f xs' = has_keys f xs" by (simp add: has_keys_set)
  have "sort_key (\<lambda>x. the (f x)) xs' = sort_key (\<lambda>x. the (f x)) xs"
  proof (rule sort_key_inj_key_eq)
    show "mset xs' = mset (sort_key (\<lambda>x. the (f x)) xs)" using assms(1) by simp
    show "inj_on (\<lambda>x. the (f x)) (set xs')" using assms(2) st by simp
    show "sorted (map (\<lambda>x. the (f x)) (sort_key (\<lambda>x. the (f x)) xs))" by (rule sorted_sort_key)
  qed
  then show ?thesis using hk by (simp add: list_sort_def has_keys_def)
qed

text \<open>
  C6 as stated fails: two distinct Reaction entries with the same total time are not
  ordered by the comparator, and the leaderboard keeps them in the order they were
  inserted.
\<close>

theorem C6_tie_counterexample:
  "tie_a \<noteq> tie_b \<and>
   \<not> the (total_time_sort_fn tie_a) < the (total_time_sort_fn tie_b) \<and>
   \<not> the (total_time_sort_fn tie_b) < the (total_time_sort_fn tie_a) \<and>
   board_after ''reaction_game'' (MStr ''2'')
     (insert_seq hub0 ''reaction_game'' (MStr ''2'') total_time_sort_fn TOP_N [tie_a, tie_b])
     = Inr [tie_a, tie_b] \<and>
   board_after ''reaction_game'' (MStr ''2'')
     (insert_seq hub0 ''reaction_game'' (MStr ''2'') total_time_sort_fn TOP_N [tie_b, tie_a])
     = Inr [tie_b, tie_a]"
  by (simp add: tie_a_def tie_b_def board_after_def add_leaderboard_entry_def list_sort_def
        read_lb_def hub0_def BASE_SAVE_def GAME_KEYS_def write_save_def TOP_N_def Let_def)

subsection \<open>Store: loading and saving\<close>

lemma ensure_keys_apply:
  "ensure_keys m ks g = (if g \<in> set ks \<and> m g = None then Some Map.empty else m g)"
  by (induction ks arbitrary: m) (auto simp: setdefault_def split: option.splits)

lemma ensure_keys_dom: "dom (ensure_keys m ks) = dom m \<union> set ks"
  by (auto simp: ensure_keys_apply dom_def)

lemma ensure_keys_id: "set ks \<subseteq> dom m \<Longrightarrow> ensure_keys m ks = m"
  by (rule ext) (auto simp: ensure_keys_apply)

lemma base_save_keys: "set GAME_KEYS \<subseteq> dom (leaderboards BASE_SAVE)"
  by (simp add: BASE_SAVE_def GAME_KEYS_def)

lemma base_save_repaired: "repair (json_dump BASE_SAVE) = Inr BASE_SAVE"
proof -
  have "ensure_keys (leaderboards BASE_SAVE) GAME_KEYS = leaderboards BASE_SAVE"
    using base_save_keys by (rule ensure_keys_id)
  then show ?thesis by (simp add: repair_def json_dump_def BASE_SAVE_def)
qed

lemma read_save_Missing: "read_save Missing = Inr (BASE_SAVE, Parsed (json_dump BASE_SAVE))"
  by (simp add: read_save_def)

lemma read_save_Unparseable: "read_save Unparseable = Inr (BASE_SAVE, Unparseable)"
  by (simp add: read_save_def base_save_repaired)

lemma read_save_Object:
  "lbs \<noteq> Some LbsOther \<Longrightarrow>
   read_save (Parsed (Object lbs pls)) =
     Inr (\<lparr> leaderboards =
              ensure_keys (case lbs of Some (LbsObject m) \<Rightarrow> m | _ \<Rightarrow> Map.empty) GAME_KEYS,
            players = (case pls of None \<Rightarrow> Map.empty | Some p \<Rightarrow> p) \<rparr>,
          Parsed (Object lbs pls))"
  by (simp add: read_save_def repair_def split: option.splits lbs_json.splits)

text \<open>What \<open>read_save\<close> does on the documents it handles: a missing file, a file that
  does not parse, and a JSON object whose \<open>"leaderboards"\<close> value, if there is one, is
  an object. All seven game keys are then present, and the players map is the stored one,
  or empty when there was none.\<close>

lemma read_save_repairs:
  assumes "f = Missing \<or> f = Unparseable \<or> (f = Parsed (Object lbs pls) \<and> lbs \<noteq> Some LbsOther)"
  shows "\<exists>data f'. read_save f = Inr (data, f') \<and> set GAME_KEYS \<subseteq> dom (leaderboards data) \<and>
           (f = Parsed (Object lbs None) \<longrightarrow> players data = Map.empty)"
  using assms
proof (elim disjE conjE)
  assume "f = Missing"
  then show ?thesis using base_save_keys by (simp add: read_save_Missing)
next
  assume "f = Unparseable"
  then show ?thesis using base_save_keys by (simp add: read_save_Unparseable)
next
  assume "f = Parsed (Object lbs pls)" and "lbs \<noteq> Some LbsOther"
  then show ?thesis by (simp add: read_save_Object ensure_keys_dom)
qed

text \<open>
  C5 on the code: a file that parses to a JSON object whose \<open>"leaderboards"\<close> value is
  not an object (for instance \<open>{"leaderboards": []}\<close>, which also lacks
  \<open>"players"\<close> and every game key), or to a JSON value that is not an object (for
  instance \<open>[]\<close>), makes \<open>read_save\<close> raise \<open>AttributeError\<close> at \<open>setdefault\<close>:
  the \<open>try\<close> covers only the parsing.
\<close>

theorem C5_read_save_raises:
  "read_save (Parsed (Object (Some LbsOther) None)) = Inl AttributeError \<and>
   read_save (Parsed NonObject) = Inl AttributeError"
  by (simp add: read_save_def repair_def)

text \<open>
  C7. Saving a ledger and loading it again succeeds and leaves the file as written. The
  loaded ledger has the same players map and the same sequence at every game key and mode
  key; it is the saved ledger itself when that has the seven game keys (a missing game key
  comes back with an empty mode map). Dictionaries are maps here, so the order in which
  keys were inserted plays no part.
\<close>

theorem C7_save_load_round_trip:
  "\<exists>data'. read_save (disk (write_save data h)) = Inr (data', disk (write_save data h)) \<and>
     (\<forall>g mk. read_lb data' g mk = read_lb data g mk) \<and>
     players data' = players data \<and>
     (set GAME_KEYS \<subseteq> dom (leaderboards data) \<longrightarrow> data' = data)"
proof -
  let ?d = "\<lparr> leaderboards = ensure_keys (leaderboards data) GAME_KEYS, players = players data \<rparr>"
  have rd: "read_save (disk (write_save data h)) = Inr (?d, disk (write_save data h))"
    by (simp add: read_save_def write_save_def json_dump_def repair_def)
  have lb: "read_lb ?d g mk = read_lb data g mk" for g mk
    by (simp add: read_lb_def ensure_keys_apply)
  have same: "?d = data" if "set GAME_KEYS \<subseteq> dom (leaderboards data)"
    using ensure_keys_id [OF that] by simp
  show ?thesis using rd lb same by (intro exI [of _ ?d]) simp
qed

theorem C7_save_load_round_trip_witness:
  "set GAME_KEYS \<subseteq> dom (leaderboards (mem full_hub)) \<and>
   read_save (disk (write_save (mem full_hub) hub0)) =
     Inr (mem full_hub, disk (write_save (mem full_hub) hub0))"
proof -
  have dom: "set GAME_KEYS \<subseteq> dom (leaderboards (mem full_hub))"
    by (simp add: full_hub_def hub0_def BASE_SAVE_def GAME_KEYS_def)
  from C7_save_load_round_trip [of "mem full_hub" hub0] dom show ?thesis by auto
qed

subsection \<open>Every play is a sequence of hub steps\<close>

lemma then_do_Inr: "then_do r f = Inr y \<longleftrightarrow> (\<exists>x. r = Inr x \<and> f x = Inr y)"
  by (cases r) (simp_all add: then_do_def)

lemma add_leaderboard_entry_store:
  assumes "add_leaderboard_entry h g mk e f n = Inr h'"
  shows "\<exists>l. h' = store_board h g (py_str mk) l"
  using assms
  by (auto simp: add_leaderboard_entry_def store_board_def modes_of_def Let_def
           split: sum.splits)

lemma step_add:
  "add_leaderboard_entry h g mk e f n = Inr h' \<Longrightarrow> hub_step h0 h \<Longrightarrow> hub_step h0 h'"
  by (auto dest!: add_leaderboard_entry_store intro: hub_step.board)

lemma step_award_listed:
  "award_listed h pl k = Inr h' \<Longrightarrow> k \<in> set awarded_keys \<Longrightarrow> hub_step h0 h \<Longrightarrow> hub_step h0 h'"
  by (auto simp: award_listed_def split: option.splits intro: hub_step.award)

lemma step_award_if:
  "award_if c h pl k = Inr h' \<Longrightarrow> k \<in> set awarded_keys \<Longrightarrow> hub_step h0 h \<Longrightarrow> hub_step h0 h'"
  by (auto simp: award_if_def split: if_splits intro: step_award_listed)

lemma step_ensure: "hub_step h (h\<lparr>mem := ensure_player (mem h) pl\<rparr>)"
  by (rule hub_step.ensure) (rule hub_step.same)

lemma awarded_keys_mem [simp]:
  "''gtn_first_try'' \<in> set awarded_keys" "''gtn_speed_demon'' \<in> set awarded_keys"
  "''gtn_sniper'' \<in> set awarded_keys" "''gtn_persistent'' \<in> set awarded_keys"
  "''gtn_nightmare'' \<in> set awarded_keys" "''gtn_iron_streak_5'' \<in> set awarded_keys"
  "''rx_lightning'' \<in> set awarded_keys" "''rx_consistent'' \<in> set awarded_keys"
  "''rx_marathon'' \<in> set awarded_keys" "''gt_perfect_accuracy'' \<in> set awarded_keys"
  "''gt_typing_machine'' \<in> set awarded_keys" "''gt_flawless_streak3'' \<in> set awarded_keys"
  "''nm_brain_of_steel'' \<in> set awarded_keys" "''nm_flash_recall'' \<in> set awarded_keys"
  "''st_pattern_pro'' \<in> set awarded_keys" "''wm_word_wizard'' \<in> set awarded_keys"
  "''ms_lightning_calc'' \<in> set awarded_keys" "''ms_math_genius'' \<in> set awarded_keys"
  by (simp_all add: awarded_keys_def)

lemma res_step_Inr: "hub_step h0 h \<Longrightarrow> res_step h0 (Inr (h, s))"
  by (simp add: res_step_def)

lemma res_step_Inl: "res_step h0 (Inl e)"
  by (simp add: res_step_def)

lemma res_stepD: "res_step h0 r \<Longrightarrow> r = Inr (h', s') \<Longrightarrow> hub_step h0 h'"
  by (simp add: res_step_def)

lemma res_step_award_if:
  assumes "hub_step h0 h" and "k \<in> set awarded_keys"
    and "\<And>h1. hub_step h0 h1 \<Longrightarrow> res_step h0 (f h1)"
  shows "res_step h0 (then_do (award_if c h pl k) f)"
proof (cases "award_if c h pl k")
  case (Inl e)
  then show ?thesis by (simp add: then_do_def res_step_def)
next
  case (Inr h1)
  then have "hub_step h0 h1" using assms(1,2) by (blast intro: step_award_if)
  then show ?thesis using Inr assms(3) by (simp add: then_do_def)
qed

lemma res_step_award_listed:
  assumes "hub_step h0 h" and "k \<in> set awarded_keys"
    and "\<And>h1. hub_step h0 h1 \<Longrightarrow> res_step h0 (f h1)"
  shows "res_step h0 (then_do (award_listed h pl k) f)"
  using res_step_award_if [OF assms(1,2), of f True pl] assms(3) by (simp add: award_if_def)

lemma res_step_add:
  assumes "hub_step h0 h" and "\<And>h1. hub_step h0 h1 \<Longrightarrow> res_step h0 (f h1)"
  shows "res_step h0 (then_do (add_leaderboard_entry h g mk e fn n) f)"
proof (cases "add_leaderboard_entry h g mk e fn n")
  case (Inl e)
  then show ?thesis by (simp add: then_do_def res_step_def)
next
  case (Inr h1)
  then have "hub_step h0 h1" using assms(1) by (blast intro: step_add)
  then show ?thesis using Inr assms(2) by (simp add: then_do_def)
qed

lemma res_step_value:
  assumes "\<And>x. res_step h0 (f x)"
  shows "res_step h0 (then_do r f)"
  using assms by (cases r) (simp_all add: then_do_def res_step_def)

lemma res_step_lookup:
  assumes "\<And>p. res_step h0 (g p)"
  shows "res_step h0 (case x of None \<Rightarrow> Inl KeyError | Some p \<Rightarrow> g p)"
  using assms by (cases x) (simp_all add: res_step_def)

lemmas res_step_intros =
  res_step_award_if res_step_award_listed res_step_add res_step_Inr res_step_Inl
  step_ensure awarded_keys_mem

lemma play_guess_the_number_res:
  "res_step h (play_guess_the_number h s nm mode min_n max_n target guesses elapsed ts)"
  unfolding play_guess_the_number_def Let_def
  by (rule res_step_value) (intro res_step_intros | assumption)+

lemma play_reaction_res: "res_step h (play_reaction h s nm rounds dts ts)"
  unfolding play_reaction_def Let_def
  by (rule res_step_value) (simp only: split_paired_all prod.case, (intro res_step_intros | assumption)+)

lemma play_gibberish_res:
  "res_step h (play_gibberish h s nm words targets typed_tokens elapsed ts)"
  unfolding play_gibberish_def Let_def
  by (simp only: split: if_split)
    (intro conjI impI res_step_intros res_step_lookup | assumption)+

lemma number_memory_loop_res:
  "hub_step h0 h \<Longrightarrow>
   res_step h0 (number_memory_loop h s pl mode_choice max_len total_time round_no rounds_io ts)"
proof (induction h s pl mode_choice max_len total_time round_no rounds_io ts
       rule: number_memory_loop.induct)
  case (1 h s pl mode_choice max_len total_time round_no ts)
  show ?case by (simp add: res_step_Inl)
next
  case (2 h s pl mode_choice max_len total_time round_no n ans dt rest ts)
  show ?case
  proof (cases "ans = n")
    case True
    show ?thesis
      unfolding number_memory_loop.simps if_P [OF True]
      by (intro res_step_award_if awarded_keys_mem "2.prems" "2.IH" True | assumption)+
  next
    case False
    show ?thesis
      unfolding number_memory_loop.simps if_not_P [OF False]
      by (intro res_step_add res_step_Inr "2.prems" | assumption)+
  qed
qed

lemma play_number_memory_res: "res_step h (play_number_memory h s nm mode_choice rounds_io ts)"
  unfolding play_number_memory_def Let_def
  by (intro number_memory_loop_res step_ensure)

lemma play_sequence_tap_res: "res_step h (play_sequence_tap h s nm steps seq typed elapsed ts)"
  unfolding play_sequence_tap_def Let_def
  by (simp only: split: if_split) (intro conjI impI res_step_intros | assumption)+

lemma play_word_memory_res:
  "res_step h (play_word_memory h s nm words_count words typed elapsed ts)"
  unfolding play_word_memory_def Let_def
  by (intro res_step_intros | assumption)+

lemma play_math_speed_res:
  "res_step h (play_math_speed h s nm problems drawn responses elapsed ts)"
  unfolding play_math_speed_def Let_def
  by (rule res_step_value) (intro res_step_intros | assumption)+

lemma run_play_step: "run_play (h, s) p = Inr (h', s') \<Longrightarrow> hub_step h h'"
proof (cases p)
  case (Guess x1 x2 x3 x4 x5 x6 x7 x8)
  assume "run_play (h, s) p = Inr (h', s')"
  with Guess show ?thesis using play_guess_the_number_res res_stepD by (metis run_play.simps(1))
next
  case (Reaction x1 x2 x3 x4)
  assume "run_play (h, s) p = Inr (h', s')"
  with Reaction show ?thesis using play_reaction_res res_stepD by (metis run_play.simps(2))
next
  case (Gibberish x1 x2 x3 x4 x5 x6)
  assume "run_play (h, s) p = Inr (h', s')"
  with Gibberish show ?thesis using play_gibberish_res res_stepD by (metis run_play.simps(3))
next
  case (NumberMemory x1 x2 x3 x4)
  assume "run_play (h, s) p = Inr (h', s')"
  with NumberMemory show ?thesis using play_number_memory_res res_stepD by (metis run_play.simps(4))
next
  case (SequenceTap x1 x2 x3 x4 x5 x6)
  assume "run_play (h, s) p = Inr (h', s')"
  with SequenceTap show ?thesis using play_sequence_tap_res res_stepD by (metis run_play.simps(5))
next
  case (WordMemory x1 x2 x3 x4 x5 x6)
  assume "run_play (h, s) p = Inr (h', s')"
  with WordMemory show ?thesis using play_word_memory_res res_stepD by (metis run_play.simps(6))
next
  case (MathSpeed x1 x2 x3 x4 x5 x6)
  assume "run_play (h, s) p = Inr (h', s')"
  with MathSpeed show ?thesis using play_math_speed_res res_stepD by (metis run_play.simps(7))
qed

lemma hub_step_trans: "hub_step b c \<Longrightarrow> hub_step a b \<Longrightarrow> hub_step a c"
  by (induction rule: hub_step.induct) (auto intro: hub_step.intros)

lemma main_menu_step: "main_menu (h, s) ps = Inr (h', s') \<Longrightarrow> hub_step h h'"
proof (induction ps arbitrary: h s)
  case Nil
  then show ?case by (simp add: hub_step.same)
next
  case (Cons p ps)
  from Cons.prems obtain h1 s1 where 1: "run_play (h, s) p = Inr (h1, s1)"
    and 2: "main_menu (h1, s1) ps = Inr (h', s')"
    by (auto simp: then_do_Inr)
  from run_play_step [OF 1] Cons.IH [OF 2] show ?case by (rule hub_step_trans [rotated])
qed

subsection \<open>Achievements\<close>

lemma achievements_of_ensure [simp]:
  "achievements_of (ensure_player d pl) q = achievements_of d q"
  by (auto simp: achievements_of_def ensure_player_def split: option.splits)

lemma games_played_of_ensure [simp]:
  "games_played_of (ensure_player d pl) q = games_played_of d q"
  by (auto simp: games_played_of_def ensure_player_def split: option.splits)

lemma ensure_player_known: "players d pl = Some r \<Longrightarrow> ensure_player d pl = d"
  by (auto simp: ensure_player_def)

lemma ensure_player_some: "\<exists>r. players (ensure_player d pl) pl = Some r"
  by (auto simp: ensure_player_def)

lemma achievements_of_award:
  "achievements_of (mem (award_achievement h pl k nm)) q =
     (if q = pl \<and> k \<notin> set (achievements_of (mem h) pl)
      then achievements_of (mem h) pl @ [k] else achievements_of (mem h) q)"
proof -
  obtain r where r: "players (ensure_player (mem h) pl) pl = Some r"
    using ensure_player_some by blast
  then have a: "achievements r = achievements_of (mem h) pl"
    using achievements_of_ensure [of "mem h" pl pl] by (simp add: achievements_of_def)
  have b: "q \<noteq> pl \<Longrightarrow> achievements_of (mem h) q =
      (case players (ensure_player (mem h) pl) q of None \<Rightarrow> [] | Some p \<Rightarrow> achievements p)"
    using achievements_of_ensure [of "mem h" pl q] by (simp add: achievements_of_def)
  show ?thesis
    using r a b
    by (auto simp: award_achievement_def Let_def write_save_def achievements_of_def)
qed

lemma games_played_of_award [simp]:
  "games_played_of (mem (award_achievement h pl k nm)) q = games_played_of (mem h) q"
proof -
  obtain r where r: "players (ensure_player (mem h) pl) pl = Some r"
    using ensure_player_some by blast
  have b: "games_played_of (mem h) q =
      (case players (ensure_player (mem h) pl) q of None \<Rightarrow> 0 | Some p \<Rightarrow> games_played p)"
    using games_played_of_ensure [of "mem h" pl q] by (simp add: games_played_of_def)
  show ?thesis
    using r b
    by (auto simp: award_achievement_def Let_def write_save_def games_played_of_def)
qed

lemma players_store_board [simp]: "players (mem (store_board h g m l)) = players (mem h)"
  by (simp add: store_board_def Let_def write_save_def)

lemma achievements_of_store_board [simp]:
  "achievements_of (mem (store_board h g m l)) q = achievements_of (mem h) q"
  by (simp add: achievements_of_def)

lemma games_played_of_store_board [simp]:
  "games_played_of (mem (store_board h g m l)) q = games_played_of (mem h) q"
  by (simp add: games_played_of_def)

lemma award_known:
  assumes "k \<in> set (achievements_of (mem h) pl)"
  shows "award_achievement h pl k nm = h"
proof -
  from assms obtain r where r: "players (mem h) pl = Some r" and k: "k \<in> set (achievements r)"
    by (cases "players (mem h) pl") (auto simp: achievements_of_def)
  from r have "ensure_player (mem h) pl = mem h" by (rule ensure_player_known)
  with r k show ?thesis by (simp add: award_achievement_def Let_def)
qed

lemma hub_step_achievements:
  "hub_step h h' \<Longrightarrow>
     set (achievements_of (mem h) q) \<subseteq> set (achievements_of (mem h') q) \<and>
     (distinct (achievements_of (mem h) q) \<longrightarrow> distinct (achievements_of (mem h') q)) \<and>
     set (achievements_of (mem h') q) \<subseteq> set (achievements_of (mem h) q) \<union> set awarded_keys"
  by (induction rule: hub_step.induct) (auto simp: achievements_of_award)

lemma hub_step_games_played:
  "hub_step h h' \<Longrightarrow> games_played_of (mem h') q = games_played_of (mem h) q"
  by (induction rule: hub_step.induct) auto

lemma achievements_of_hub0 [simp]: "achievements_of (mem hub0) q = []"
  by (simp add: achievements_of_def hub0_def BASE_SAVE_def)

lemma games_played_of_hub0 [simp]: "games_played_of (mem hub0) q = 0"
  by (simp add: games_played_of_def hub0_def BASE_SAVE_def)

text \<open>
  C4. Awarding a key the player already holds changes nothing: not the achievement list,
  not the file, and nothing is printed. An award keeps a duplicate-free list duplicate-free
  and removes no key; the same holds for any run of plays from the menu, so that a run
  that starts from the empty ledger never holds a key twice.
\<close>

theorem C4_award_idempotent:
  "(k \<in> set (achievements_of (mem h) pl) \<longrightarrow> award_achievement h pl k nm = h) \<and>
   (distinct (achievements_of (mem h) q) \<longrightarrow>
      distinct (achievements_of (mem (award_achievement h pl k nm)) q)) \<and>
   set (achievements_of (mem h) q) \<subseteq> set (achievements_of (mem (award_achievement h pl k nm)) q) \<and>
   (main_menu (h, s) ps = Inr (h', s') \<longrightarrow>
      (distinct (achievements_of (mem h) q) \<longrightarrow> distinct (achievements_of (mem h') q)) \<and>
      set (achievements_of (mem h) q) \<subseteq> set (achievements_of (mem h') q)) \<and>
   (main_menu (hub0, s) ps = Inr (h', s') \<longrightarrow> distinct (achievements_of (mem h') q))"
proof (intro conjI impI)
  assume "k \<in> set (achievements_of (mem h) pl)"
  then show "award_achievement h pl k nm = h" by (rule award_known)
next
  assume "distinct (achievements_of (mem h) q)"
  then show "distinct (achievements_of (mem (award_achievement h pl k nm)) q)"
    by (auto simp: achievements_of_award)
next
  show "set (achievements_of (mem h) q) \<subseteq> set (achievements_of (mem (award_achievement h pl k nm)) q)"
    by (auto simp: achievements_of_award)
next
  assume "main_menu (h, s) ps = Inr (h', s')"
  then have st: "hub_step h h'" by (rule main_menu_step)
  from hub_step_achievements [OF st, of q]
  show "set (achievements_of (mem h) q) \<subseteq> set (achievements_of (mem h') q)" by blast
  assume "distinct (achievements_of (mem h) q)"
  with hub_step_achievements [OF st, of q]
  show "distinct (achievements_of (mem h') q)" by blast
next
  assume "main_menu (hub0, s) ps = Inr (h', s')"
  then have "hub_step hub0 h'" by (rule main_menu_step)
  from hub_step_achievements [OF this, of q]
  show "distinct (achievements_of (mem h') q)" by simp
qed

lemma achievements_alice_hub: "achievements_of (mem alice_hub) ''Alice'' = [''gtn_sniper'']"
  by (simp add: alice_hub_def achievements_of_award)

lemma known_player_bad_tap:
  assumes "players (mem h) ''Alice'' = Some r"
  shows "run_play (h, s) bad_tap =
           Inr (h, s\<lparr>player := Some ''Alice'', total_games_played := total_games_played s + 1\<rparr>)"
  using ensure_player_known [OF assms]
  by (simp add: bad_tap_def play_sequence_tap_def name_or_default_def Let_def)

lemma alice_hub_player: "\<exists>r. players (mem alice_hub) ''Alice'' = Some r"
  using achievements_alice_hub by (auto simp: achievements_of_def split: option.splits)

theorem C4_award_idempotent_witness:
  "''gtn_sniper'' \<in> set (achievements_of (mem alice_hub) ''Alice'') \<and>
   award_achievement alice_hub ''Alice'' ''gtn_sniper'' ''Sniper (<3 attempts)'' = alice_hub \<and>
   distinct (achievements_of (mem alice_hub) ''Alice'') \<and>
   main_menu (alice_hub, SessionTracker None) [bad_tap] =
     Inr (alice_hub, (SessionTracker None)\<lparr>player := Some ''Alice'', total_games_played := 1\<rparr>) \<and>
   set (achievements_of (mem alice_hub) ''Alice'') \<subseteq> set (achievements_of (mem alice_hub) ''Alice'')"
proof -
  from alice_hub_player obtain r where "players (mem alice_hub) ''Alice'' = Some r" by blast
  from known_player_bad_tap [OF this, of "SessionTracker None"]
  have run: "main_menu (alice_hub, SessionTracker None) [bad_tap] =
     Inr (alice_hub, (SessionTracker None)\<lparr>player := Some ''Alice'', total_games_played := 1\<rparr>)"
    by (simp add: then_do_def SessionTracker_def)
  from C4_award_idempotent [of "''gtn_sniper''" alice_hub "''Alice''" "''Sniper (<3 attempts)''"
         "''Alice''" "SessionTracker None" "[bad_tap]" alice_hub
         "(SessionTracker None)\<lparr>player := Some ''Alice'', total_games_played := 1\<rparr>"]
       run achievements_alice_hub
  show ?thesis by simp
qed

subsection \<open>Failed attempts in the games that require perfection\<close>

lemma leaderboards_ensure [simp]: "leaderboards (ensure_player d pl) = leaderboards d"
  by (simp add: ensure_player_def)

text \<open>
  C2. A Gibberish Typing play whose typed tokens differ from the targets, and a Sequence
  Tap play whose typed string differs from the expected sequence, return normally with
  every leaderboard, every player's achievement list, the file and the printed
  notifications as they were; the Gibberish play leaves the perfect-streak counter at 0.
\<close>

theorem C2_failed_attempt_not_recorded:
  "(typed_tokens \<noteq> targets \<longrightarrow>
      (\<exists>h' s'. play_gibberish h s nm words targets typed_tokens elapsed ts = Inr (h', s') \<and>
         leaderboards (mem h') = leaderboards (mem h) \<and>
         (\<forall>q. achievements_of (mem h') q = achievements_of (mem h) q) \<and>
         printed h' = printed h \<and> disk h' = disk h \<and>
         perfect_gibberish_streak s' = 0)) \<and>
   (typed \<noteq> concat seq \<longrightarrow>
      (\<exists>h' s'. play_sequence_tap h s nm steps seq typed elapsed ts = Inr (h', s') \<and>
         leaderboards (mem h') = leaderboards (mem h) \<and>
         (\<forall>q. achievements_of (mem h') q = achievements_of (mem h) q) \<and>
         printed h' = printed h \<and> disk h' = disk h))"
  by (simp add: play_gibberish_def play_sequence_tap_def Let_def)

theorem C2_failed_attempt_not_recorded_witness:
  "[''zaqi'', ''xovu''] \<noteq> [''zaqi'', ''xovo''] \<and> ''ABCDX'' \<noteq> concat good_tap_seq \<and>
   (\<exists>h' s'. play_gibberish alice_hub (SessionTracker None) ''Alice'' 5 [''zaqi'', ''xovo'']
                [''zaqi'', ''xovu''] 3 0 = Inr (h', s') \<and>
      leaderboards (mem h') = leaderboards (mem alice_hub) \<and>
      (\<forall>q. achievements_of (mem h') q = achievements_of (mem alice_hub) q) \<and>
      printed h' = printed alice_hub \<and> disk h' = disk alice_hub \<and>
      perfect_gibberish_streak s' = 0) \<and>
   (\<exists>h' s'. play_sequence_tap alice_hub (SessionTracker None) ''Alice'' 5 good_tap_seq
                ''ABCDX'' 3 0 = Inr (h', s') \<and>
      leaderboards (mem h') = leaderboards (mem alice_hub) \<and>
      (\<forall>q. achievements_of (mem h') q = achievements_of (mem alice_hub) q) \<and>
      printed h' = printed alice_hub \<and> disk h' = disk alice_hub)"
proof -
  have a: "[''zaqi'', ''xovu''] \<noteq> [''zaqi'', ''xovo'']" by simp
  have b: "''ABCDX'' \<noteq> concat good_tap_seq" by (simp add: good_tap_seq_def)
  from C2_failed_attempt_not_recorded [where typed_tokens = "[''zaqi'', ''xovu'']"
         and targets = "[''zaqi'', ''xovo'']" and h = alice_hub and s = "SessionTracker None"
         and nm = "''Alice''" and words = 5 and elapsed = 3 and ts = 0
         and typed = "''ABCDX''" and seq = good_tap_seq and steps = 5] a b
  show ?thesis by blast
qed

subsection \<open>The games-played counter and the Grinder achievement\<close>

lemma grinder_not_awarded: "''cg_grinder_50'' \<notin> set awarded_keys"
  by (simp add: awarded_keys_def)

text \<open>
  C3 on the code. No run of plays changes any player's \<open>games_played\<close> counter, and no
  play awards \<open>cg_grinder_50\<close>: the counter is set to 0 by \<open>ensure_player\<close> and never
  written again, and the key occurs in the catalog only. After 50 plays by Alice on a
  fresh ledger her counter is 0 and her achievement list does not hold the key.
\<close>

theorem C3_grinder_never_awarded:
  "main_menu (h, s) ps = Inr (h', s') \<Longrightarrow>
     games_played_of (mem h') q = games_played_of (mem h) q \<and>
     (''cg_grinder_50'' \<notin> set (achievements_of (mem h) q) \<longrightarrow>
      ''cg_grinder_50'' \<notin> set (achievements_of (mem h') q))"
proof -
  assume "main_menu (h, s) ps = Inr (h', s')"
  then have st: "hub_step h h'" by (rule main_menu_step)
  from hub_step_games_played [OF st, of q] hub_step_achievements [OF st, of q]
    grinder_not_awarded
  show ?thesis by blast
qed

lemma alice0_player: "\<exists>r. players (mem alice0) ''Alice'' = Some r"
  by (simp add: alice0_def ensure_player_some)

lemma first_bad_tap:
  "run_play (hub0, SessionTracker None) bad_tap =
     Inr (alice0, (SessionTracker None)\<lparr>player := Some ''Alice'', total_games_played := 1\<rparr>)"
  by (simp add: bad_tap_def play_sequence_tap_def name_or_default_def Let_def alice0_def
        SessionTracker_def)

lemma many_bad_taps:
  assumes "players (mem h) ''Alice'' = Some r" and "player s = Some ''Alice''"
  shows "main_menu (h, s) (replicate n bad_tap) =
           Inr (h, s\<lparr>total_games_played := total_games_played s + int n\<rparr>)"
  using assms(2)
proof (induction n arbitrary: s)
  case 0
  then show ?case by simp
next
  case (Suc n)
  let ?s1 = "s\<lparr>player := Some ''Alice'', total_games_played := total_games_played s + 1\<rparr>"
  have "main_menu (h, s) (replicate (Suc n) bad_tap) = main_menu (h, ?s1) (replicate n bad_tap)"
    by (simp add: known_player_bad_tap [OF assms(1)] then_do_def)
  also have "\<dots> = Inr (h, ?s1\<lparr>total_games_played := total_games_played ?s1 + int n\<rparr>)"
    by (rule Suc.IH) simp
  also have "?s1\<lparr>total_games_played := total_games_played ?s1 + int n\<rparr> =
             s\<lparr>total_games_played := total_games_played s + int (Suc n)\<rparr>"
    using Suc.prems by (cases s) simp
  finally show ?case .
qed

lemma fifty_bad_taps:
  "main_menu (hub0, SessionTracker None) (replicate 50 bad_tap) =
     Inr (alice0, (SessionTracker None)\<lparr>player := Some ''Alice'', total_games_played := 50\<rparr>)"
proof -
  obtain r where r: "players (mem alice0) ''Alice'' = Some r" using alice0_player by blast
  have "replicate 50 bad_tap = bad_tap # replicate 49 bad_tap"
    by (simp add: numeral_eq_Suc)
  then have "main_menu (hub0, SessionTracker None) (replicate 50 bad_tap) =
      main_menu (alice0, (SessionTracker None)\<lparr>player := Some ''Alice'', total_games_played := 1\<rparr>)
        (replicate 49 bad_tap)"
    by (simp add: first_bad_tap then_do_def)
  also have "\<dots> = Inr (alice0, (SessionTracker None)\<lparr>player := Some ''Alice'', total_games_played := 50\<rparr>)"
    using many_bad_taps [OF r, of "(SessionTracker None)\<lparr>player := Some ''Alice'', total_games_played := 1\<rparr>" 49]
    by (simp add: SessionTracker_def)
  finally show ?thesis .
qed

theorem C3_grinder_never_awarded_witness:
  "main_menu (hub0, SessionTracker None) (replicate 50 bad_tap) =
     Inr (alice0, (SessionTracker None)\<lparr>player := Some ''Alice'', total_games_played := 50\<rparr>) \<and>
   games_played_of (mem alice0) ''Alice'' = 0 \<and>
   ''cg_grinder_50'' \<notin> set (achievements_of (mem alice0) ''Alice'')"
  using C3_grinder_never_awarded [OF fifty_bad_taps, of "''Alice''"] fifty_bad_taps
  by simp

subsection \<open>What each game records in the session tracker\<close>

lemma play_guess_the_number_session:
  "play_guess_the_number h s nm mode min_n max_n target guesses elapsed ts = Inr (h', s') \<Longrightarrow>
   s' = s\<lparr>player := Some (name_or_default nm),
          games_this_session := insert ''guess'' (games_this_session s),
          total_games_played := total_games_played s + 1,
          consecutive_gtn_wins := consecutive_gtn_wins s + 1\<rparr>"
  by (auto simp: play_guess_the_number_def Let_def then_do_Inr)

lemma play_reaction_session:
  "play_reaction h s nm rounds dts ts = Inr (h', s') \<Longrightarrow>
   s' = s\<lparr>player := Some (name_or_default nm),
          games_this_session := insert ''reaction'' (games_this_session s),
          total_games_played := total_games_played s + 1\<rparr>"
  by (auto simp: play_reaction_def Let_def then_do_Inr)

lemma play_gibberish_session:
  "play_gibberish h s nm words targets typed_tokens elapsed ts = Inr (h', s') \<Longrightarrow>
   games_this_session s' = insert ''gibberish'' (games_this_session s) \<and>
   total_games_played s' = total_games_played s + 1"
  by (auto simp: play_gibberish_def Let_def then_do_Inr split: if_splits option.splits)

lemma play_sequence_tap_session:
  "play_sequence_tap h s nm steps seq typed elapsed ts = Inr (h', s') \<Longrightarrow>
   s' = s\<lparr>player := Some (name_or_default nm),
          total_games_played := total_games_played s + 1\<rparr>"
  by (auto simp: play_sequence_tap_def Let_def then_do_Inr split: if_splits)

lemma play_word_memory_session:
  "play_word_memory h s nm words_count words typed elapsed ts = Inr (h', s') \<Longrightarrow>
   s' = s\<lparr>player := Some (name_or_default nm),
          total_games_played := total_games_played s + 1\<rparr>"
  by (auto simp: play_word_memory_def Let_def then_do_Inr)

lemma play_math_speed_session:
  "play_math_speed h s nm problems drawn responses elapsed ts = Inr (h', s') \<Longrightarrow>
   s' = s\<lparr>player := Some (name_or_default nm),
          total_games_played := total_games_played s + 1\<rparr>"
  by (auto simp: play_math_speed_def Let_def then_do_Inr)

lemma number_memory_loop_session:
  "number_memory_loop h s pl mode_choice max_len total_time round_no rounds_io ts = Inr (h', s') \<Longrightarrow>
   s' = s\<lparr>total_games_played := total_games_played s +
            int (length (takeWhile (\<lambda>(n, ans, dt). ans = n) rounds_io))\<rparr>"
proof (induction h s pl mode_choice max_len total_time round_no rounds_io ts
       arbitrary: h' s' rule: number_memory_loop.induct)
  case (1 h s pl mode_choice max_len total_time round_no ts)
  then show ?case by simp
next
  case (2 h s pl mode_choice max_len total_time round_no n ans dt rest ts)
  show ?case
  proof (cases "ans = n")
    case True
    with "2.prems" obtain h2 where
      "number_memory_loop h2 (s\<lparr>total_games_played := total_games_played s + 1\<rparr>)
          pl mode_choice (max_len + 1) (total_time + dt) (round_no + 1) rest ts = Inr (h', s')"
      by (auto simp: then_do_Inr)
    from "2.IH" [OF True this] True show ?thesis by simp
  next
    case False
    with "2.prems" show ?thesis by (auto simp: then_do_Inr)
  qed
qed

lemma play_number_memory_session:
  "play_number_memory h s nm mode_choice rounds_io ts = Inr (h', s') \<Longrightarrow>
   s' = s\<lparr>player := Some (name_or_default nm),
          total_games_played := total_games_played s +
            int (length (takeWhile (\<lambda>(n, ans, dt). ans = n) rounds_io))\<rparr>"
  by (auto simp: play_number_memory_def Let_def dest!: number_memory_loop_session)

lemma read_lb_ensure [simp]:
  "read_lb (ensure_player d pl) g mk = read_lb d g mk"
  by (simp add: read_lb_def)

lemma session_after_add:
  assumes "has_keys f (read_lb (mem h) g mk)" and "f e \<noteq> None"
  shows "session_after (then_do (add_leaderboard_entry h g mk e f n) (\<lambda>h'. Inr (h', s))) = Inr s"
  using add_leaderboard_entry_ok [OF assms, of n]
  by (auto simp: then_do_def session_after_def)

text \<open>
  C9 on the code. A completed, correct Sequence Tap play leaves the set of games played
  this session empty: only Guess the Number, Reaction and Gibberish Typing add their
  identifier. A Number Memory play counts one game per correct round, not one per play:
  a play that fails in the first round leaves the total at 0, and a play with two correct
  rounds raises it by 2.
\<close>

theorem C9_session_not_recorded:
  "session_after (play_sequence_tap hub0 (SessionTracker None) ''Alice'' 5 good_tap_seq
                    ''ABCDE'' 3 0) =
     Inr \<lparr>player = Some ''Alice'', games_this_session = {}, consecutive_gtn_wins = 0,
          perfect_gibberish_streak = 0, total_games_played = 1\<rparr> \<and>
   session_after (play_number_memory hub0 (SessionTracker None) ''Alice'' ''hard_6''
                    [(''123456'', ''123450'', 2)] 0) =
     Inr \<lparr>player = Some ''Alice'', games_this_session = {}, consecutive_gtn_wins = 0,
          perfect_gibberish_streak = 0, total_games_played = 0\<rparr> \<and>
   session_after (play_number_memory hub0 (SessionTracker None) ''Alice'' ''hard_6''
                    [(''123456'', ''123456'', 2), (''1234567'', ''1234567'', 3),
                     (''12345678'', ''12345670'', 4)] 0) =
     Inr \<lparr>player = Some ''Alice'', games_this_session = {}, consecutive_gtn_wins = 0,
          perfect_gibberish_streak = 0, total_games_played = 2\<rparr>"
proof (intro conjI)
  show "session_after (play_sequence_tap hub0 (SessionTracker None) ''Alice'' 5 good_tap_seq
                    ''ABCDE'' 3 0) =
     Inr \<lparr>player = Some ''Alice'', games_this_session = {}, consecutive_gtn_wins = 0,
          perfect_gibberish_streak = 0, total_games_played = 1\<rparr>"
    by (simp add: play_sequence_tap_def Let_def good_tap_seq_def award_if_def then_do_def [of "Inr _"]
          name_or_default_def session_after_add SessionTracker_def)
  show "session_after (play_number_memory hub0 (SessionTracker None) ''Alice'' ''hard_6''
                    [(''123456'', ''123450'', 2)] 0) =
     Inr \<lparr>player = Some ''Alice'', games_this_session = {}, consecutive_gtn_wins = 0,
          perfect_gibberish_streak = 0, total_games_played = 0\<rparr>"
    by (simp add: play_number_memory_def Let_def name_or_default_def session_after_add
          SessionTracker_def)
  show "session_after (play_number_memory hub0 (SessionTracker None) ''Alice'' ''hard_6''
                    [(''123456'', ''123456'', 2), (''1234567'', ''1234567'', 3),
                     (''12345678'', ''12345670'', 4)] 0) =
     Inr \<lparr>player = Some ''Alice'', games_this_session = {}, consecutive_gtn_wins = 0,
          perfect_gibberish_streak = 0, total_games_played = 2\<rparr>"
    by (simp add: play_number_memory_def Let_def name_or_default_def session_after_add
          award_if_def then_do_def [of "Inr _"] SessionTracker_def)
qed

subsection \<open>Runs of inserts and the cut\<close>

lemma insort_insert_last:
  "insort_key f x (insert_last f e s) = insert_last f e (insort_key f x s)"
  by (induction s) auto

lemma sort_key_snoc: "sort_key f (xs @ [e]) = insert_last f e (sort_key f xs)"
  by (induction xs) (simp_all add: insort_insert_last)

lemma take_insert_last: "take n (insert_last f e (take n s)) = take n (insert_last f e s)"
proof (induction s arbitrary: n)
  case Nil
  then show ?case by simp
next
  case (Cons y ys)
  show ?case
  proof (cases n)
    case 0
    then show ?thesis by simp
  next
    case (Suc m)
    have "take m (y # take m ys) = take m (y # ys)"
      by (cases m) simp_all
    with Suc Cons.IH [of m] show ?thesis by simp
  qed
qed

lemma take_sort_snoc:
  "take n (sort_key f (take n (sort_key f xs) @ [e])) = take n (sort_key f (xs @ [e]))"
proof -
  have "sorted (map f (take n (sort_key f xs)))"
    unfolding take_map [symmetric] by (rule sorted_wrt_take) (rule sorted_sort_key)
  then have "sort_key f (take n (sort_key f xs)) = take n (sort_key f xs)"
    by (rule sort_key_id_if_sorted)
  then show ?thesis by (simp add: sort_key_snoc take_insert_last)
qed

lemma insert_seq_board:
  assumes "has_keys f es" and "has_keys f xs"
    and "read_lb (mem h) g mk = take n (sort_key (\<lambda>x. the (f x)) xs)"
  shows "\<exists>h'. insert_seq h g mk f n es = Inr h' \<and>
           read_lb (mem h') g mk = take n (sort_key (\<lambda>x. the (f x)) (xs @ es))"
  using assms
proof (induction es arbitrary: h xs)
  case Nil
  then show ?case by simp
next
  case (Cons e es)
  from Cons.prems(1) have ke: "f e \<noteq> None" and kes: "has_keys f es"
    by (simp_all add: has_keys_def)
  have kb: "has_keys f (read_lb (mem h) g mk)"
    unfolding Cons.prems(3) using Cons.prems(2) by (intro has_keys_take) simp
  from add_leaderboard_entry_ok [OF kb ke, of n]
  obtain h1 where h1: "add_leaderboard_entry h g mk e f n = Inr h1"
    and lb1: "read_lb (mem h1) g mk =
                take n (sort_key (\<lambda>x. the (f x)) (read_lb (mem h) g mk @ [e]))"
    by blast
  have lb1': "read_lb (mem h1) g mk = take n (sort_key (\<lambda>x. the (f x)) ((xs @ [e])))"
    unfolding lb1 Cons.prems(3) by (rule take_sort_snoc)
  have kx: "has_keys f (xs @ [e])" using Cons.prems(2) ke by simp
  from Cons.IH [OF kes kx lb1'] h1 show ?case by simp
qed

lemma board_after_insert_seq:
  assumes "read_lb (mem h) g mk = []" and "has_keys f es"
  shows "board_after g mk (insert_seq h g mk f n es) =
           Inr (take n (sort_key (\<lambda>x. the (f x)) es))"
  using insert_seq_board [OF assms(2), of "[]" h g mk n] assms(1)
  by (auto simp: board_after_def)

lemma sort_key_perm:
  assumes "mset xs' = mset xs" and "inj_on f (set xs)"
  shows "sort_key f xs' = sort_key f xs"
proof (rule sort_key_inj_key_eq)
  show "mset xs' = mset (sort_key f xs)" using assms(1) by simp
  show "inj_on f (set xs')" using assms(2) mset_eq_setD [OF assms(1)] by simp
  show "sorted (map f (sort_key f xs))" by (rule sorted_sort_key)
qed

lemma board_after_perm:
  assumes "read_lb (mem h) g mk = []" and "has_keys f es" and "mset es' = mset es"
    and "inj_on (\<lambda>x. the (f x)) (set es)"
  shows "board_after g mk (insert_seq h g mk f n es') =
         board_after g mk (insert_seq h g mk f n es)"
proof -
  from assms(3) have "set es' = set es" by (rule mset_eq_setD)
  with assms(2) have k': "has_keys f es'" by (simp add: has_keys_set)
  show ?thesis
    unfolding board_after_insert_seq [OF assms(1) k'] board_after_insert_seq [OF assms(1,2)]
    by (simp add: sort_key_perm [OF assms(3,4)])
qed

subsection \<open>The comparator each game passes\<close>

lemma add_leaderboard_entry_board:
  assumes "add_leaderboard_entry h g mk e f n = Inr h'"
  shows "read_lb (mem h') g mk =
           take n (sort_key (\<lambda>x. the (f x)) (read_lb (mem h) g mk @ [e]))"
  using assms
  by (auto simp: add_leaderboard_entry_def read_lb_def Let_def list_sort_def write_save_def
           split: if_splits sum.splits)

lemma leaderboards_award [simp]:
  "leaderboards (mem (award_achievement h pl k nm)) = leaderboards (mem h)"
  by (simp add: award_achievement_def Let_def write_save_def split: option.splits)

lemma read_lb_award [simp]:
  "read_lb (mem (award_achievement h pl k nm)) g mk = read_lb (mem h) g mk"
  by (simp add: read_lb_def)

lemma award_if_board:
  "award_if c h pl k = Inr h' \<Longrightarrow> read_lb (mem h') g mk = read_lb (mem h) g mk"
  by (auto simp: award_if_def award_listed_def split: if_splits option.splits)

lemma award_listed_board:
  "award_listed h pl k = Inr h' \<Longrightarrow> read_lb (mem h') g mk = read_lb (mem h) g mk"
  by (auto simp: award_listed_def split: option.splits)

lemma read_lb_py_str: "read_lb d g (MStr (py_str mk)) = read_lb d g mk"
  by (simp add: read_lb_def)

lemma add_leaderboard_entry_board_str:
  assumes "add_leaderboard_entry h g (MStr (py_str mk)) e f n = Inr h'"
  shows "read_lb (mem h') g mk =
           take n (sort_key (\<lambda>x. the (f x)) (read_lb (mem h) g mk @ [e]))"
  using add_leaderboard_entry_board [OF assms] by (simp only: read_lb_py_str)

lemma play_guess_the_number_board:
  assumes "play_guess_the_number h s nm mode min_n max_n target guesses elapsed ts = Inr (h', s')"
  shows "\<exists>attempts. read_lb (mem h') ''guess_the_number'' (MStr mode) =
           take TOP_N (sort_key (\<lambda>x. the (gtn_sort_fn x))
             (read_lb (mem h) ''guess_the_number'' (MStr mode) @
                [GuessEntry (name_or_default nm) attempts elapsed ts]))"
proof -
  let ?pl = "name_or_default nm"
  let ?h0 = "h\<lparr>mem := ensure_player (mem h) ?pl\<rparr>"
  let ?b = "\<lambda>x. read_lb (mem x) ''guess_the_number'' (MStr mode)"
  from assms obtain attempts h1 h2 h3 h4 h5 h6 c7 where
    a1: "award_if (attempts = 1) ?h0 ?pl ''gtn_first_try'' = Inr h1" and
    a2: "award_if (elapsed < 5) h1 ?pl ''gtn_speed_demon'' = Inr h2" and
    a3: "award_if (attempts < 3) h2 ?pl ''gtn_sniper'' = Inr h3" and
    a4: "award_if (attempts \<ge> 20) h3 ?pl ''gtn_persistent'' = Inr h4" and
    a5: "award_if (mode = ''7'') h4 ?pl ''gtn_nightmare'' = Inr h5" and
    a6: "award_if c7 h5 ?pl ''gtn_iron_streak_5'' = Inr h6" and
    a7: "add_leaderboard_entry h6 ''guess_the_number'' (MStr mode)
       (GuessEntry ?pl attempts elapsed ts) gtn_sort_fn TOP_N = Inr h'"
    unfolding play_guess_the_number_def Let_def then_do_Inr by blast
  have "?b h6 = ?b h"
    using award_if_board [OF a1] award_if_board [OF a2] award_if_board [OF a3]
      award_if_board [OF a4] award_if_board [OF a5] award_if_board [OF a6]
    by simp
  with add_leaderboard_entry_board [OF a7] show ?thesis by auto
qed

lemma play_reaction_board:
  assumes "play_reaction h s nm rounds dts ts = Inr (h', s')"
  shows "\<exists>total_rt per_round. read_lb (mem h') ''reaction_game'' (MInt rounds) =
           take TOP_N (sort_key (\<lambda>x. the (total_time_sort_fn x))
             (read_lb (mem h) ''reaction_game'' (MInt rounds) @
                [ReactionEntry (name_or_default nm) total_rt per_round ts]))"
proof -
  let ?pl = "name_or_default nm"
  let ?h0 = "h\<lparr>mem := ensure_player (mem h) ?pl\<rparr>"
  let ?b = "\<lambda>x. read_lb (mem x) ''reaction_game'' (MInt rounds)"
  from assms obtain total_rt per_round c1 c2 h1 h2 h3 where
    a1: "award_if c1 ?h0 ?pl ''rx_lightning'' = Inr h1" and
    a2: "award_if c2 h1 ?pl ''rx_consistent'' = Inr h2" and
    a3: "award_if (rounds = 25) h2 ?pl ''rx_marathon'' = Inr h3" and
    a4: "add_leaderboard_entry h3 ''reaction_game'' (MStr (py_str (MInt rounds)))
       (ReactionEntry ?pl total_rt per_round ts) total_time_sort_fn TOP_N = Inr h'"
    unfolding play_reaction_def Let_def then_do_Inr by (auto simp: then_do_Inr)
  have "?b h3 = ?b h"
    using award_if_board [OF a1] award_if_board [OF a2] award_if_board [OF a3] by simp
  with add_leaderboard_entry_board_str [OF a4] show ?thesis by auto
qed

lemma play_gibberish_board:
  assumes "play_gibberish h s nm words targets typed_tokens elapsed ts = Inr (h', s')"
    and "typed_tokens = targets"
  shows "read_lb (mem h') ''gibberish_typing'' (MInt words) =
           take TOP_N (sort_key (\<lambda>x. the (total_time_sort_fn x))
             (read_lb (mem h) ''gibberish_typing'' (MInt words) @
                [GibberishEntry (name_or_default nm) elapsed words ts]))"
proof -
  let ?pl = "name_or_default nm"
  let ?h0 = "h\<lparr>mem := ensure_player (mem h) ?pl\<rparr>"
  let ?b = "\<lambda>x. read_lb (mem x) ''gibberish_typing'' (MInt words)"
  from assms obtain c2 c3 h1 h2 h3 where
    a1: "award_listed ?h0 ?pl ''gt_perfect_accuracy'' = Inr h1" and
    a2: "award_if c2 h1 ?pl ''gt_typing_machine'' = Inr h2" and
    a3: "award_if c3 h2 ?pl ''gt_flawless_streak3'' = Inr h3" and
    a4: "add_leaderboard_entry h3 ''gibberish_typing'' (MStr (py_str (MInt words)))
       (GibberishEntry ?pl elapsed words ts) total_time_sort_fn TOP_N = Inr h'"
    unfolding play_gibberish_def Let_def
    by (auto simp: then_do_Inr split: option.splits)
  have "?b h3 = ?b h"
    using award_listed_board [OF a1] award_if_board [OF a2] award_if_board [OF a3] by simp
  with add_leaderboard_entry_board_str [OF a4] show ?thesis by auto
qed

lemma number_memory_loop_board:
  "number_memory_loop h s pl mode_choice max_len total_time round_no rounds_io ts = Inr (h', s') \<Longrightarrow>
   \<exists>max_length tt. read_lb (mem h') ''number_memory'' (MStr mode_choice) =
      take TOP_N (sort_key (\<lambda>x. the (nm_sort_fn x))
        (read_lb (mem h) ''number_memory'' (MStr mode_choice) @
           [NumberMemoryEntry pl max_length tt ts]))"
proof (induction h s pl mode_choice max_len total_time round_no rounds_io ts
       arbitrary: h' s' rule: number_memory_loop.induct)
  case (1 h s pl mode_choice max_len total_time round_no ts)
  then show ?case by simp
next
  case (2 h s pl mode_choice max_len total_time round_no n ans dt rest ts)
  show ?case
  proof (cases "ans = n")
    case True
    with "2.prems" obtain c1 c2 h1 h2 where
      a1: "award_if c1 h pl ''nm_brain_of_steel'' = Inr h1" and
      a2: "award_if c2 h1 pl ''nm_flash_recall'' = Inr h2" and
      a3: "number_memory_loop h2 (s\<lparr>total_games_played := total_games_played s + 1\<rparr>)
          pl mode_choice (max_len + 1) (total_time + dt) (round_no + 1) rest ts = Inr (h', s')"
      by (auto simp: then_do_Inr)
    from "2.IH" [OF True a3] award_if_board [OF a1] award_if_board [OF a2]
    show ?thesis by simp
  next
    case False
    with "2.prems" have "add_leaderboard_entry h ''number_memory'' (MStr mode_choice)
        (NumberMemoryEntry pl (max_len - 1) (total_time + dt) ts) nm_sort_fn TOP_N = Inr h'"
      by (auto simp: then_do_Inr)
    from add_leaderboard_entry_board [OF this] show ?thesis by blast
  qed
qed

lemma play_number_memory_board:
  assumes "play_number_memory h s nm mode_choice rounds_io ts = Inr (h', s')"
  shows "\<exists>max_length tt. read_lb (mem h') ''number_memory'' (MStr mode_choice) =
      take TOP_N (sort_key (\<lambda>x. the (nm_sort_fn x))
        (read_lb (mem h) ''number_memory'' (MStr mode_choice) @
           [NumberMemoryEntry (name_or_default nm) max_length tt ts]))"
  using number_memory_loop_board [of "h\<lparr>mem := ensure_player (mem h) (name_or_default nm)\<rparr>"]
    assms
  by (fastforce simp: play_number_memory_def Let_def)

lemma play_sequence_tap_board:
  assumes "play_sequence_tap h s nm steps seq typed elapsed ts = Inr (h', s')"
    and "typed = concat seq"
  shows "read_lb (mem h') ''sequence_tap'' (MInt steps) =
           take TOP_N (sort_key (\<lambda>x. the (total_time_sort_fn x))
             (read_lb (mem h) ''sequence_tap'' (MInt steps) @
                [SequenceEntry (name_or_default nm) elapsed ts]))"
proof -
  let ?pl = "name_or_default nm"
  let ?h0 = "h\<lparr>mem := ensure_player (mem h) ?pl\<rparr>"
  from assms obtain h1 where
    a1: "award_if (steps = 20) ?h0 ?pl ''st_pattern_pro'' = Inr h1" and
    a2: "add_leaderboard_entry h1 ''sequence_tap'' (MStr (py_str (MInt steps)))
       (SequenceEntry ?pl elapsed ts) total_time_sort_fn TOP_N = Inr h'"
    unfolding play_sequence_tap_def Let_def by (auto simp: then_do_Inr)
  from add_leaderboard_entry_board_str [OF a2] award_if_board [OF a1] show ?thesis by simp
qed

lemma play_word_memory_board:
  assumes "play_word_memory h s nm words_count words typed elapsed ts = Inr (h', s')"
  shows "\<exists>correct. read_lb (mem h') ''word_memory'' (MInt words_count) =
           take TOP_N (sort_key (\<lambda>x. the (wm_sort_fn x))
             (read_lb (mem h) ''word_memory'' (MInt words_count) @
                [WordMemoryEntry (name_or_default nm) correct elapsed ts]))"
proof -
  let ?pl = "name_or_default nm"
  let ?h0 = "h\<lparr>mem := ensure_player (mem h) ?pl\<rparr>"
  from assms obtain c correct h1 where
    a1: "award_if c ?h0 ?pl ''wm_word_wizard'' = Inr h1" and
    a2: "add_leaderboard_entry h1 ''word_memory'' (MStr (py_str (MInt words_count)))
       (WordMemoryEntry ?pl correct elapsed ts) wm_sort_fn TOP_N = Inr h'"
    unfolding play_word_memory_def Let_def by (auto simp: then_do_Inr)
  from add_leaderboard_entry_board_str [OF a2] award_if_board [OF a1] show ?thesis by auto
qed

lemma play_math_speed_board:
  assumes "play_math_speed h s nm problems drawn responses elapsed ts = Inr (h', s')"
  shows "read_lb (mem h') ''math_speed'' (MInt problems) =
           take TOP_N (sort_key (\<lambda>x. the (total_time_sort_fn x))
             (read_lb (mem h) ''math_speed'' (MInt problems) @
                [MathEntry (name_or_default nm) elapsed problems ts]))"
proof -
  let ?pl = "name_or_default nm"
  let ?h0 = "h\<lparr>mem := ensure_player (mem h) ?pl\<rparr>"
  from assms obtain c1 h1 h2 where
    a1: "award_if c1 ?h0 ?pl ''ms_lightning_calc'' = Inr h1" and
    a2: "award_if (problems = 50) h1 ?pl ''ms_math_genius'' = Inr h2" and
    a3: "add_leaderboard_entry h2 ''math_speed'' (MStr (py_str (MInt problems)))
       (MathEntry ?pl elapsed problems ts) total_time_sort_fn TOP_N = Inr h'"
    unfolding play_math_speed_def Let_def by (auto simp: then_do_Inr)
  from add_leaderboard_entry_board_str [OF a3] award_if_board [OF a1] award_if_board [OF a2]
  show ?thesis by simp
qed

subsection \<open>Sample plays\<close>

lemma session_after_InrD: "session_after r = Inr s \<Longrightarrow> \<exists>h. r = Inr (h, s)"
  by (cases r) (auto simp: session_after_def)

lemma players_award_some [simp]: "players (mem (award_achievement h pl k nm)) pl \<noteq> None"
  using ensure_player_some [of "mem h" pl]
  by (auto simp: award_achievement_def Let_def write_save_def)

lemma guess_played:
  "\<exists>h' s'. play_guess_the_number hub0 (SessionTracker None) ''Alice'' ''3'' 1 100 42
      [Some 50, None, Some 30, Some 40, Some 42] 10 0 = Inr (h', s')"
proof -
  have "session_after (play_guess_the_number hub0 (SessionTracker None) ''Alice'' ''3'' 1 100 42
      [Some 50, None, Some 30, Some 40, Some 42] 10 0) =
     Inr \<lparr>player = Some ''Alice'', games_this_session = {''guess''}, consecutive_gtn_wins = 1,
          perfect_gibberish_streak = 0, total_games_played = 1\<rparr>"
    by (simp add: play_guess_the_number_def Let_def name_or_default_def award_if_def
          then_do_def [of "Inr _"] session_after_add SessionTracker_def)
  then show ?thesis by (blast dest: session_after_InrD)
qed

lemma reaction_played:
  "\<exists>h' s'. play_reaction hub0 (SessionTracker None) ''Alice'' 2 [6 / 10, 7 / 10] 0 = Inr (h', s')"
proof -
  have "session_after (play_reaction hub0 (SessionTracker None) ''Alice'' 2 [6 / 10, 7 / 10] 0) =
     Inr \<lparr>player = Some ''Alice'', games_this_session = {''reaction''}, consecutive_gtn_wins = 0,
          perfect_gibberish_streak = 0, total_games_played = 1\<rparr>"
    by (simp add: play_reaction_def Let_def name_or_default_def award_if_def eval_nat_numeral
          then_do_def [of "Inr _"] session_after_add SessionTracker_def)
  then show ?thesis by (blast dest: session_after_InrD)
qed

lemma perfect_accuracy_listed:
  "ACH_LIST ''gt_perfect_accuracy'' = Some ''Perfect Accuracy (100%)''"
  by (simp add: ACH_LIST_def)

lemma gibberish_played:
  "\<exists>h' s'. play_gibberish hub0 (SessionTracker None) ''Alice'' 5
      [''zaqi'', ''xovu''] [''zaqi'', ''xovu''] 12 0 = Inr (h', s')"
proof -
  have "session_after (play_gibberish hub0 (SessionTracker None) ''Alice'' 5
      [''zaqi'', ''xovu''] [''zaqi'', ''xovu''] 12 0) =
     Inr \<lparr>player = Some ''Alice'', games_this_session = {''gibberish''}, consecutive_gtn_wins = 0,
          perfect_gibberish_streak = 1, total_games_played = 1\<rparr>"
    by (simp add: play_gibberish_def Let_def name_or_default_def award_if_def award_listed_def
          perfect_accuracy_listed then_do_def [of "Inr _"] session_after_add SessionTracker_def
          split: option.splits)
  then show ?thesis by (blast dest: session_after_InrD)
qed

lemma number_memory_played:
  "\<exists>h' s'. play_number_memory hub0 (SessionTracker None) ''Alice'' ''hard_6''
      [(''123456'', ''123450'', 2)] 0 = Inr (h', s')"
proof -
  have "session_after (play_number_memory hub0 (SessionTracker None) ''Alice'' ''hard_6''
                    [(''123456'', ''123450'', 2)] 0) =
     Inr \<lparr>player = Some ''Alice'', games_this_session = {}, consecutive_gtn_wins = 0,
          perfect_gibberish_streak = 0, total_games_played = 0\<rparr>"
    by (simp add: play_number_memory_def Let_def name_or_default_def session_after_add
          SessionTracker_def)
  then show ?thesis by (blast dest: session_after_InrD)
qed

lemma sequence_tap_played:
  "\<exists>h' s'. play_sequence_tap hub0 (SessionTracker None) ''Alice'' 5 good_tap_seq ''ABCDE'' 3 0
      = Inr (h', s')"
proof -
  have "session_after (play_sequence_tap hub0 (SessionTracker None) ''Alice'' 5 good_tap_seq
                    ''ABCDE'' 3 0) =
     Inr \<lparr>player = Some ''Alice'', games_this_session = {}, consecutive_gtn_wins = 0,
          perfect_gibberish_streak = 0, total_games_played = 1\<rparr>"
    by (simp add: play_sequence_tap_def Let_def good_tap_seq_def award_if_def
          then_do_def [of "Inr _"] name_or_default_def session_after_add SessionTracker_def)
  then show ?thesis by (blast dest: session_after_InrD)
qed

lemma word_memory_played:
  "\<exists>h' s'. play_word_memory hub0 (SessionTracker None) ''Alice'' 5
      [''apple'', ''river'', ''mount'', ''stone'', ''train'']
      [''apple'', ''rover'', ''mount''] 9 0 = Inr (h', s')"
proof -
  have "session_after (play_word_memory hub0 (SessionTracker None) ''Alice'' 5
      [''apple'', ''river'', ''mount'', ''stone'', ''train'']
      [''apple'', ''rover'', ''mount''] 9 0) =
     Inr \<lparr>player = Some ''Alice'', games_this_session = {}, consecutive_gtn_wins = 0,
          perfect_gibberish_streak = 0, total_games_played = 1\<rparr>"
    by (simp add: play_word_memory_def Let_def award_if_def
          then_do_def [of "Inr _"] name_or_default_def session_after_add SessionTracker_def)
  then show ?thesis by (blast dest: session_after_InrD)
qed

lemma easy_quiz_answered:
  "quiz_loop (map easy_quiz xs) (replicate (length xs) (Some 5) @ rest) = Inr rest"
  by (induction xs) (simp_all add: easy_quiz_def then_do_def)

lemma math_speed_played:
  "\<exists>h' s'. play_math_speed hub0 (SessionTracker None) ''Alice'' 10 easy_quiz
      (replicate 10 (Some 5)) 40 0 = Inr (h', s')"
proof -
  have q: "quiz_loop (map easy_quiz [0..<nat 10]) (replicate 10 (Some 5)) = Inr []"
    using easy_quiz_answered [of "[0..<nat 10]" "[]"] by simp
  have "session_after (play_math_speed hub0 (SessionTracker None) ''Alice'' 10 easy_quiz
      (replicate 10 (Some 5)) 40 0) =
     Inr \<lparr>player = Some ''Alice'', games_this_session = {}, consecutive_gtn_wins = 0,
          perfect_gibberish_streak = 0, total_games_played = 1\<rparr>"
    unfolding play_math_speed_def Let_def q
    by (simp add: award_if_def then_do_def [of "Inr _"] name_or_default_def session_after_add
          SessionTracker_def)
  then show ?thesis by (blast dest: session_after_InrD)
qed

subsection \<open>Comparators of the seven modes\<close>

lemma scenario1_sorted:
  "list_sort gtn_sort_fn scenario1 =
     Inr [GuessEntry ''B'' 1 8 1, GuessEntry ''C'' 3 5 2, GuessEntry ''A'' 3 10 0]"
  by (simp add: list_sort_def scenario1_def)

text \<open>
  C6, as the code has it. Each mode ranks by its declared keys, compared
  lexicographically: the primary key first (descending where it is negated), then the
  declared secondary key; Reaction, Gibberish Typing, Sequence Tap and Math Speed rank by
  total time alone. The sort puts the entries in key order, keeps every entry, and leaves
  entries of equal key in the order they had (it is stable). When distinct entries never
  tie on all declared keys, the result does not depend on the order of insertion. The same
  holds of a run of inserts with the cut: the board after the run is the first
  \<open>top_n\<close> of the stable sort of everything inserted. Every game inserts with the
  comparator of its mode.
\<close>

theorem C6_comparator_amended:
  "(the (gtn_sort_fn (GuessEntry n1 a1 t1 s1)) < the (gtn_sort_fn (GuessEntry n2 a2 t2 s2))
      \<longleftrightarrow> a1 < a2 \<or> a1 = a2 \<and> t1 < t2) \<and>
   (the (nm_sort_fn (NumberMemoryEntry n1 a1 t1 s1)) < the (nm_sort_fn (NumberMemoryEntry n2 a2 t2 s2))
      \<longleftrightarrow> a1 > a2 \<or> a1 = a2 \<and> t1 < t2) \<and>
   (the (wm_sort_fn (WordMemoryEntry n1 a1 t1 s1)) < the (wm_sort_fn (WordMemoryEntry n2 a2 t2 s2))
      \<longleftrightarrow> a1 > a2 \<or> a1 = a2 \<and> t1 < t2) \<and>
   (list_sort sort_fn xs = Inr ys \<longrightarrow>
      sorted (map (\<lambda>x. the (sort_fn x)) ys) \<and> mset ys = mset xs \<and>
      (\<forall>k. filter (\<lambda>x. the (sort_fn x) = k) ys = filter (\<lambda>x. the (sort_fn x) = k) xs)) \<and>
   (mset xs' = mset xs \<and> inj_on (\<lambda>x. the (sort_fn x)) (set xs) \<longrightarrow>
      list_sort sort_fn xs' = list_sort sort_fn xs) \<and>
   (the (total_time_sort_fn (ReactionEntry n1 t1 p1 s1)) <
      the (total_time_sort_fn (ReactionEntry n2 t2 p2 s2)) \<longleftrightarrow> t1 < t2) \<and>
   (the (total_time_sort_fn (GibberishEntry n1 t1 w1 s1)) <
      the (total_time_sort_fn (GibberishEntry n2 t2 w2 s2)) \<longleftrightarrow> t1 < t2) \<and>
   (the (total_time_sort_fn (SequenceEntry n1 t1 s1)) <
      the (total_time_sort_fn (SequenceEntry n2 t2 s2)) \<longleftrightarrow> t1 < t2) \<and>
   (the (total_time_sort_fn (MathEntry n1 t1 w1 s1)) <
      the (total_time_sort_fn (MathEntry n2 t2 w2 s2)) \<longleftrightarrow> t1 < t2) \<and>
   (read_lb (mem h) game_key mk = [] \<and> has_keys sort_fn es \<longrightarrow>
      board_after game_key mk (insert_seq h game_key mk sort_fn top_n es) =
        Inr (take top_n (sort_key (\<lambda>x. the (sort_fn x)) es))) \<and>
   (read_lb (mem h) game_key mk = [] \<and> has_keys sort_fn es \<and> mset es' = mset es \<and>
      inj_on (\<lambda>x. the (sort_fn x)) (set es) \<longrightarrow>
      board_after game_key mk (insert_seq h game_key mk sort_fn top_n es') =
      board_after game_key mk (insert_seq h game_key mk sort_fn top_n es)) \<and>
   (\<forall>g s nm mode min_n max_n target guesses elapsed ts g' s'.
      play_guess_the_number g s nm mode min_n max_n target guesses elapsed ts = Inr (g', s') \<longrightarrow>
      (\<exists>attempts. read_lb (mem g') ''guess_the_number'' (MStr mode) =
         take TOP_N (sort_key (\<lambda>x. the (gtn_sort_fn x))
           (read_lb (mem g) ''guess_the_number'' (MStr mode) @
              [GuessEntry (name_or_default nm) attempts elapsed ts])))) \<and>
   (\<forall>g s nm rounds dts ts g' s'.
      play_reaction g s nm rounds dts ts = Inr (g', s') \<longrightarrow>
      (\<exists>total_rt per_round. read_lb (mem g') ''reaction_game'' (MInt rounds) =
         take TOP_N (sort_key (\<lambda>x. the (total_time_sort_fn x))
           (read_lb (mem g) ''reaction_game'' (MInt rounds) @
              [ReactionEntry (name_or_default nm) total_rt per_round ts])))) \<and>
   (\<forall>g s nm words targets elapsed ts g' s'.
      play_gibberish g s nm words targets targets elapsed ts = Inr (g', s') \<longrightarrow>
      read_lb (mem g') ''gibberish_typing'' (MInt words) =
         take TOP_N (sort_key (\<lambda>x. the (total_time_sort_fn x))
           (read_lb (mem g) ''gibberish_typing'' (MInt words) @
              [GibberishEntry (name_or_default nm) elapsed words ts]))) \<and>
   (\<forall>g s nm mode_choice rounds_io ts g' s'.
      play_number_memory g s nm mode_choice rounds_io ts = Inr (g', s') \<longrightarrow>
      (\<exists>max_length tt. read_lb (mem g') ''number_memory'' (MStr mode_choice) =
         take TOP_N (sort_key (\<lambda>x. the (nm_sort_fn x))
           (read_lb (mem g) ''number_memory'' (MStr mode_choice) @
              [NumberMemoryEntry (name_or_default nm) max_length tt ts])))) \<and>
   (\<forall>g s nm steps seq elapsed ts g' s'.
      play_sequence_tap g s nm steps seq (concat seq) elapsed ts = Inr (g', s') \<longrightarrow>
      read_lb (mem g') ''sequence_tap'' (MInt steps) =
         take TOP_N (sort_key (\<lambda>x. the (total_time_sort_fn x))
           (read_lb (mem g) ''sequence_tap'' (MInt steps) @
              [SequenceEntry (name_or_default nm) elapsed ts]))) \<and>
   (\<forall>g s nm words_count words typed elapsed ts g' s'.
      play_word_memory g s nm words_count words typed elapsed ts = Inr (g', s') \<longrightarrow>
      (\<exists>correct. read_lb (mem g') ''word_memory'' (MInt words_count) =
         take TOP_N (sort_key (\<lambda>x. the (wm_sort_fn x))
           (read_lb (mem g) ''word_memory'' (MInt words_count) @
              [WordMemoryEntry (name_or_default nm) correct elapsed ts])))) \<and>
   (\<forall>g s nm problems drawn responses elapsed ts g' s'.
      play_math_speed g s nm problems drawn responses elapsed ts = Inr (g', s') \<longrightarrow>
      read_lb (mem g') ''math_speed'' (MInt problems) =
         take TOP_N (sort_key (\<lambda>x. the (total_time_sort_fn x))
           (read_lb (mem g) ''math_speed'' (MInt problems) @
              [MathEntry (name_or_default nm) elapsed problems ts])))"
proof (intro conjI)
  show "(the (gtn_sort_fn (GuessEntry n1 a1 t1 s1)) < the (gtn_sort_fn (GuessEntry n2 a2 t2 s2)))
      = (a1 < a2 \<or> a1 = a2 \<and> t1 < t2)" by auto
  show "(the (nm_sort_fn (NumberMemoryEntry n1 a1 t1 s1)) < the (nm_sort_fn (NumberMemoryEntry n2 a2 t2 s2)))
      = (a1 > a2 \<or> a1 = a2 \<and> t1 < t2)" by auto
  show "(the (wm_sort_fn (WordMemoryEntry n1 a1 t1 s1)) < the (wm_sort_fn (WordMemoryEntry n2 a2 t2 s2)))
      = (a1 > a2 \<or> a1 = a2 \<and> t1 < t2)" by auto
  show "list_sort sort_fn xs = Inr ys \<longrightarrow>
      sorted (map (\<lambda>x. the (sort_fn x)) ys) \<and> mset ys = mset xs \<and>
      (\<forall>k. filter (\<lambda>x. the (sort_fn x) = k) ys = filter (\<lambda>x. the (sort_fn x) = k) xs)"
    using list_sort_props [of sort_fn xs ys] by blast
  show "mset xs' = mset xs \<and> inj_on (\<lambda>x. the (sort_fn x)) (set xs) \<longrightarrow>
      list_sort sort_fn xs' = list_sort sort_fn xs"
    using list_sort_perm [of xs' xs sort_fn] by blast
  show "(the (total_time_sort_fn (ReactionEntry n1 t1 p1 s1)) <
      the (total_time_sort_fn (ReactionEntry n2 t2 p2 s2))) = (t1 < t2)" by simp
  show "(the (total_time_sort_fn (GibberishEntry n1 t1 w1 s1)) <
      the (total_time_sort_fn (GibberishEntry n2 t2 w2 s2))) = (t1 < t2)" by simp
  show "(the (total_time_sort_fn (SequenceEntry n1 t1 s1)) <
      the (total_time_sort_fn (SequenceEntry n2 t2 s2))) = (t1 < t2)" by simp
  show "(the (total_time_sort_fn (MathEntry n1 t1 w1 s1)) <
      the (total_time_sort_fn (MathEntry n2 t2 w2 s2))) = (t1 < t2)" by simp
  show "read_lb (mem h) game_key mk = [] \<and> has_keys sort_fn es \<longrightarrow>
      board_after game_key mk (insert_seq h game_key mk sort_fn top_n es) =
        Inr (take top_n (sort_key (\<lambda>x. the (sort_fn x)) es))"
    using board_after_insert_seq [of h game_key mk sort_fn es top_n] by blast
  show "read_lb (mem h) game_key mk = [] \<and> has_keys sort_fn es \<and> mset es' = mset es \<and>
      inj_on (\<lambda>x. the (sort_fn x)) (set es) \<longrightarrow>
      board_after game_key mk (insert_seq h game_key mk sort_fn top_n es') =
      board_after game_key mk (insert_seq h game_key mk sort_fn top_n es)"
    using board_after_perm [of h game_key mk sort_fn es es' top_n] by blast
  show "\<forall>g s nm mode min_n max_n target guesses elapsed ts g' s'.
      play_guess_the_number g s nm mode min_n max_n target guesses elapsed ts = Inr (g', s') \<longrightarrow>
      (\<exists>attempts. read_lb (mem g') ''guess_the_number'' (MStr mode) =
         take TOP_N (sort_key (\<lambda>x. the (gtn_sort_fn x))
           (read_lb (mem g) ''guess_the_number'' (MStr mode) @
              [GuessEntry (name_or_default nm) attempts elapsed ts])))"
    by (intro allI impI) (rule play_guess_the_number_board)
  show "\<forall>g s nm rounds dts ts g' s'.
      play_reaction g s nm rounds dts ts = Inr (g', s') \<longrightarrow>
      (\<exists>total_rt per_round. read_lb (mem g') ''reaction_game'' (MInt rounds) =
         take TOP_N (sort_key (\<lambda>x. the (total_time_sort_fn x))
           (read_lb (mem g) ''reaction_game'' (MInt rounds) @
              [ReactionEntry (name_or_default nm) total_rt per_round ts])))"
    by (intro allI impI) (rule play_reaction_board)
  show "\<forall>g s nm words targets elapsed ts g' s'.
      play_gibberish g s nm words targets targets elapsed ts = Inr (g', s') \<longrightarrow>
      read_lb (mem g') ''gibberish_typing'' (MInt words) =
         take TOP_N (sort_key (\<lambda>x. the (total_time_sort_fn x))
           (read_lb (mem g) ''gibberish_typing'' (MInt words) @
              [GibberishEntry (name_or_default nm) elapsed words ts]))"
    by (intro allI impI) (rule play_gibberish_board, assumption, rule refl)
  show "\<forall>g s nm mode_choice rounds_io ts g' s'.
      play_number_memory g s nm mode_choice rounds_io ts = Inr (g', s') \<longrightarrow>
      (\<exists>max_length tt. read_lb (mem g') ''number_memory'' (MStr mode_choice) =
         take TOP_N (sort_key (\<lambda>x. the (nm_sort_fn x))
           (read_lb (mem g) ''number_memory'' (MStr mode_choice) @
              [NumberMemoryEntry (name_or_default nm) max_length tt ts])))"
    by (intro allI impI) (rule play_number_memory_board)
  show "\<forall>g s nm steps seq elapsed ts g' s'.
      play_sequence_tap g s nm steps seq (concat seq) elapsed ts = Inr (g', s') \<longrightarrow>
      read_lb (mem g') ''sequence_tap'' (MInt steps) =
         take TOP_N (sort_key (\<lambda>x. the (total_time_sort_fn x))
           (read_lb (mem g) ''sequence_tap'' (MInt steps) @
              [SequenceEntry (name_or_default nm) elapsed ts]))"
    by (intro allI impI) (rule play_sequence_tap_board, assumption, rule refl)
  show "\<forall>g s nm words_count words typed elapsed ts g' s'.
      play_word_memory g s nm words_count words typed elapsed ts = Inr (g', s') \<longrightarrow>
      (\<exists>correct. read_lb (mem g') ''word_memory'' (MInt words_count) =
         take TOP_N (sort_key (\<lambda>x. the (wm_sort_fn x))
           (read_lb (mem g) ''word_memory'' (MInt words_count) @
              [WordMemoryEntry (name_or_default nm) correct elapsed ts])))"
    by (intro allI impI) (rule play_word_memory_board)
  show "\<forall>g s nm problems drawn responses elapsed ts g' s'.
      play_math_speed g s nm problems drawn responses elapsed ts = Inr (g', s') \<longrightarrow>
      read_lb (mem g') ''math_speed'' (MInt problems) =
         take TOP_N (sort_key (\<lambda>x. the (total_time_sort_fn x))
           (read_lb (mem g) ''math_speed'' (MInt problems) @
              [MathEntry (name_or_default nm) elapsed problems ts]))"
    by (intro allI impI) (rule play_math_speed_board)
qed

theorem C6_comparator_amended_witness:
  "list_sort gtn_sort_fn scenario1 =
     Inr [GuessEntry ''B'' 1 8 1, GuessEntry ''C'' 3 5 2, GuessEntry ''A'' 3 10 0] \<and>
   mset (rev scenario1) = mset scenario1 \<and>
   inj_on (\<lambda>x. the (gtn_sort_fn x)) (set scenario1) \<and>
   sorted (map (\<lambda>x. the (gtn_sort_fn x))
             [GuessEntry ''B'' 1 8 1, GuessEntry ''C'' 3 5 2, GuessEntry ''A'' 3 10 0]) \<and>
   list_sort gtn_sort_fn (rev scenario1) = list_sort gtn_sort_fn scenario1 \<and>
   read_lb (mem hub0) ''guess_the_number'' (MStr ''3'') = [] \<and> has_keys gtn_sort_fn scenario1 \<and>
   board_after ''guess_the_number'' (MStr ''3'')
     (insert_seq hub0 ''guess_the_number'' (MStr ''3'') gtn_sort_fn 2 scenario1) =
     Inr [GuessEntry ''B'' 1 8 1, GuessEntry ''C'' 3 5 2] \<and>
   board_after ''guess_the_number'' (MStr ''3'')
     (insert_seq hub0 ''guess_the_number'' (MStr ''3'') gtn_sort_fn 2 (rev scenario1)) =
   board_after ''guess_the_number'' (MStr ''3'')
     (insert_seq hub0 ''guess_the_number'' (MStr ''3'') gtn_sort_fn 2 scenario1) \<and>
   (\<exists>h' s' attempts. play_guess_the_number hub0 (SessionTracker None) ''Alice'' ''3'' 1 100 42
        [Some 50, None, Some 30, Some 40, Some 42] 10 0 = Inr (h', s') \<and>
      read_lb (mem h') ''guess_the_number'' (MStr ''3'') = [GuessEntry ''Alice'' attempts 10 0]) \<and>
   (\<exists>h' s' total_rt per_round.
      play_reaction hub0 (SessionTracker None) ''Alice'' 2 [6 / 10, 7 / 10] 0 = Inr (h', s') \<and>
      read_lb (mem h') ''reaction_game'' (MInt 2) = [ReactionEntry ''Alice'' total_rt per_round 0]) \<and>
   (\<exists>h' s'. play_gibberish hub0 (SessionTracker None) ''Alice'' 5
        [''zaqi'', ''xovu''] [''zaqi'', ''xovu''] 12 0 = Inr (h', s') \<and>
      read_lb (mem h') ''gibberish_typing'' (MInt 5) = [GibberishEntry ''Alice'' 12 5 0]) \<and>
   (\<exists>h' s' max_length tt. play_number_memory hub0 (SessionTracker None) ''Alice'' ''hard_6''
        [(''123456'', ''123450'', 2)] 0 = Inr (h', s') \<and>
      read_lb (mem h') ''number_memory'' (MStr ''hard_6'') =
        [NumberMemoryEntry ''Alice'' max_length tt 0]) \<and>
   (\<exists>h' s'. play_sequence_tap hub0 (SessionTracker None) ''Alice'' 5 good_tap_seq
        (concat good_tap_seq) 3 0 = Inr (h', s') \<and>
      read_lb (mem h') ''sequence_tap'' (MInt 5) = [SequenceEntry ''Alice'' 3 0]) \<and>
   (\<exists>h' s' correct. play_word_memory hub0 (SessionTracker None) ''Alice'' 5
        [''apple'', ''river'', ''mount'', ''stone'', ''train'']
        [''apple'', ''rover'', ''mount''] 9 0 = Inr (h', s') \<and>
      read_lb (mem h') ''word_memory'' (MInt 5) = [WordMemoryEntry ''Alice'' correct 9 0]) \<and>
   (\<exists>h' s'. play_math_speed hub0 (SessionTracker None) ''Alice'' 10 easy_quiz
        (replicate 10 (Some 5)) 40 0 = Inr (h', s') \<and>
      read_lb (mem h') ''math_speed'' (MInt 10) = [MathEntry ''Alice'' 40 10 0])"
proof -
  note T = C6_comparator_amended [where sort_fn = gtn_sort_fn and xs = scenario1
      and ys = "[GuessEntry ''B'' 1 8 1, GuessEntry ''C'' 3 5 2, GuessEntry ''A'' 3 10 0]"
      and xs' = "rev scenario1" and h = hub0 and game_key = "''guess_the_number''"
      and mk = "MStr ''3''" and es = scenario1 and es' = "rev scenario1" and top_n = 2]
  note runs = T [THEN conjunct2, THEN conjunct2, THEN conjunct2, THEN conjunct2, THEN conjunct2,
      THEN conjunct2, THEN conjunct2, THEN conjunct2, THEN conjunct2]
  note plays = runs [THEN conjunct2, THEN conjunct2]
  have inj: "inj_on (\<lambda>x. the (gtn_sort_fn x)) (set scenario1)"
    by (simp add: scenario1_def)
  have perm: "mset (rev scenario1) = mset scenario1" by simp
  have emp: "read_lb (mem hub0) ''guess_the_number'' (MStr ''3'') = []" by simp
  have keys: "has_keys gtn_sort_fn scenario1" by (simp add: scenario1_def has_keys_def)
  have nm: "name_or_default ''Alice'' = ''Alice''" by (simp add: name_or_default_def)
  have cut: "take 2 (sort_key (\<lambda>x. the (gtn_sort_fn x)) scenario1) =
      [GuessEntry ''B'' 1 8 1, GuessEntry ''C'' 3 5 2]"
    by (simp add: scenario1_def)
  have p1: "sorted (map (\<lambda>x. the (gtn_sort_fn x))
             [GuessEntry ''B'' 1 8 1, GuessEntry ''C'' 3 5 2, GuessEntry ''A'' 3 10 0])"
    using T [THEN conjunct2, THEN conjunct2, THEN conjunct2, THEN conjunct1] scenario1_sorted by blast
  have p1': "list_sort gtn_sort_fn (rev scenario1) = list_sort gtn_sort_fn scenario1"
    using T [THEN conjunct2, THEN conjunct2, THEN conjunct2, THEN conjunct2, THEN conjunct1] inj perm by blast
  have p2: "board_after ''guess_the_number'' (MStr ''3'')
     (insert_seq hub0 ''guess_the_number'' (MStr ''3'') gtn_sort_fn 2 scenario1) =
     Inr [GuessEntry ''B'' 1 8 1, GuessEntry ''C'' 3 5 2]"
    using runs [THEN conjunct1] emp keys unfolding cut [symmetric] by blast
  have p3: "board_after ''guess_the_number'' (MStr ''3'')
     (insert_seq hub0 ''guess_the_number'' (MStr ''3'') gtn_sort_fn 2 (rev scenario1)) =
   board_after ''guess_the_number'' (MStr ''3'')
     (insert_seq hub0 ''guess_the_number'' (MStr ''3'') gtn_sort_fn 2 scenario1)"
    using runs [THEN conjunct2, THEN conjunct1] emp keys inj perm by blast
  have g1: "\<exists>h' s' attempts. play_guess_the_number hub0 (SessionTracker None) ''Alice'' ''3'' 1 100 42
        [Some 50, None, Some 30, Some 40, Some 42] 10 0 = Inr (h', s') \<and>
      read_lb (mem h') ''guess_the_number'' (MStr ''3'') = [GuessEntry ''Alice'' attempts 10 0]"
  proof -
    from guess_played obtain h' s' where
      e: "play_guess_the_number hub0 (SessionTracker None) ''Alice'' ''3'' 1 100 42
        [Some 50, None, Some 30, Some 40, Some 42] 10 0 = Inr (h', s')" by blast
    from plays [THEN conjunct1, rule_format, OF e] show ?thesis
      using e by (auto simp: nm TOP_N_def)
  qed
  have g2: "\<exists>h' s' total_rt per_round.
      play_reaction hub0 (SessionTracker None) ''Alice'' 2 [6 / 10, 7 / 10] 0 = Inr (h', s') \<and>
      read_lb (mem h') ''reaction_game'' (MInt 2) = [ReactionEntry ''Alice'' total_rt per_round 0]"
  proof -
    from reaction_played obtain h' s' where
      e: "play_reaction hub0 (SessionTracker None) ''Alice'' 2 [6 / 10, 7 / 10] 0 = Inr (h', s')"
      by blast
    from plays [THEN conjunct2, THEN conjunct1, rule_format, OF e] show ?thesis
      using e by (auto simp: nm TOP_N_def)
  qed
  have g3: "\<exists>h' s'. play_gibberish hub0 (SessionTracker None) ''Alice'' 5
        [''zaqi'', ''xovu''] [''zaqi'', ''xovu''] 12 0 = Inr (h', s') \<and>
      read_lb (mem h') ''gibberish_typing'' (MInt 5) = [GibberishEntry ''Alice'' 12 5 0]"
  proof -
    from gibberish_played obtain h' s' where
      e: "play_gibberish hub0 (SessionTracker None) ''Alice'' 5
        [''zaqi'', ''xovu''] [''zaqi'', ''xovu''] 12 0 = Inr (h', s')" by blast
    from plays [THEN conjunct2, THEN conjunct2, THEN conjunct1, rule_format, OF e] show ?thesis
      using e by (auto simp: nm TOP_N_def)
  qed
  have g4: "\<exists>h' s' max_length tt. play_number_memory hub0 (SessionTracker None) ''Alice'' ''hard_6''
        [(''123456'', ''123450'', 2)] 0 = Inr (h', s') \<and>
      read_lb (mem h') ''number_memory'' (MStr ''hard_6'') =
        [NumberMemoryEntry ''Alice'' max_length tt 0]"
  proof -
    from number_memory_played obtain h' s' where
      e: "play_number_memory hub0 (SessionTracker None) ''Alice'' ''hard_6''
        [(''123456'', ''123450'', 2)] 0 = Inr (h', s')" by blast
    from plays [THEN conjunct2, THEN conjunct2, THEN conjunct2, THEN conjunct1, rule_format, OF e] show ?thesis
      using e by (auto simp: nm TOP_N_def)
  qed
  have g5: "\<exists>h' s'. play_sequence_tap hub0 (SessionTracker None) ''Alice'' 5 good_tap_seq
        (concat good_tap_seq) 3 0 = Inr (h', s') \<and>
      read_lb (mem h') ''sequence_tap'' (MInt 5) = [SequenceEntry ''Alice'' 3 0]"
  proof -
    from sequence_tap_played obtain h' s' where
      e: "play_sequence_tap hub0 (SessionTracker None) ''Alice'' 5 good_tap_seq
        (concat good_tap_seq) 3 0 = Inr (h', s')" by (auto simp: good_tap_seq_def)
    from plays [THEN conjunct2, THEN conjunct2, THEN conjunct2, THEN conjunct2, THEN conjunct1, rule_format, OF e] show ?thesis
      using e by (auto simp: nm TOP_N_def)
  qed
  have g6: "\<exists>h' s' correct. play_word_memory hub0 (SessionTracker None) ''Alice'' 5
        [''apple'', ''river'', ''mount'', ''stone'', ''train'']
        [''apple'', ''rover'', ''mount''] 9 0 = Inr (h', s') \<and>
      read_lb (mem h') ''word_memory'' (MInt 5) = [WordMemoryEntry ''Alice'' correct 9 0]"
  proof -
    from word_memory_played obtain h' s' where
      e: "play_word_memory hub0 (SessionTracker None) ''Alice'' 5
        [''apple'', ''river'', ''mount'', ''stone'', ''train'']
        [''apple'', ''rover'', ''mount''] 9 0 = Inr (h', s')" by blast
    from plays [THEN conjunct2, THEN conjunct2, THEN conjunct2, THEN conjunct2, THEN conjunct2, THEN conjunct1, rule_format, OF e] show ?thesis
      using e by (auto simp: nm TOP_N_def)
  qed
  have g7: "\<exists>h' s'. play_math_speed hub0 (SessionTracker None) ''Alice'' 10 easy_quiz
        (replicate 10 (Some 5)) 40 0 = Inr (h', s') \<and>
      read_lb (mem h') ''math_speed'' (MInt 10) = [MathEntry ''Alice'' 40 10 0]"
  proof -
    from math_speed_played obtain h' s' where
      e: "play_math_speed hub0 (SessionTracker None) ''Alice'' 10 easy_quiz
        (replicate 10 (Some 5)) 40 0 = Inr (h', s')" by blast
    from plays [THEN conjunct2, THEN conjunct2, THEN conjunct2, THEN conjunct2, THEN conjunct2, THEN conjunct2, rule_format, OF e] show ?thesis
      using e by (auto simp: nm TOP_N_def)
  qed
  show ?thesis
    by (intro conjI scenario1_sorted perm inj p1 p1' emp keys p2 p3 g1 g2 g3 g4 g5 g6 g7)
qed

end
